theory Spec2Isabelle
  imports Complex_Main
begin

section \<open>JavaScript strings\<close>

text \<open>
  A JavaScript string is a sequence of UTF-16 code units. A code unit is modelled by its
  number, a string by the list of its code units, so that \<open>length\<close>, \<open>take\<close> and
  \<open>drop\<close> count what \<^verbatim>\<open>s.length\<close> and \<^verbatim>\<open>s.slice\<close> count. ASCII literals of the source are
  written \<open>js ''...''\<close>; an accented letter is spliced in by its code point
  (\<open>[233]\<close> is U+00E9, e acute).
\<close>

type_synonym jsstring = "nat list"

definition js :: "string \<Rightarrow> jsstring" where
  "js s = map of_char s"

text \<open>The character classes of the regular expressions: \<^verbatim>\<open>\d\<close>, \<^verbatim>\<open>\w\<close> and \<^verbatim>\<open>\s\<close>
  (without the unicode flag \<^verbatim>\<open>\w\<close> is ASCII only; \<^verbatim>\<open>\s\<close> is the white space and line
  terminators of ECMAScript).\<close>

definition isDigit :: "nat \<Rightarrow> bool" where
  "isDigit c \<longleftrightarrow> 48 \<le> c \<and> c \<le> 57"

definition isAsciiLetter :: "nat \<Rightarrow> bool" where
  "isAsciiLetter c \<longleftrightarrow> (65 \<le> c \<and> c \<le> 90) \<or> (97 \<le> c \<and> c \<le> 122)"

definition isWordChar :: "nat \<Rightarrow> bool" where
  "isWordChar c \<longleftrightarrow> isAsciiLetter c \<or> isDigit c \<or> c = 95"

definition isSpace :: "nat \<Rightarrow> bool" where
  "isSpace c \<longleftrightarrow>
     (9 \<le> c \<and> c \<le> 13) \<or> c = 32 \<or> c = 160 \<or> c = 5760 \<or> (8192 \<le> c \<and> c \<le> 8202) \<or>
     c = 8232 \<or> c = 8233 \<or> c = 8239 \<or> c = 8287 \<or> c = 12288 \<or> c = 65279"

text \<open>
  \<^verbatim>\<open>String.prototype.toLowerCase\<close>, code unit by code unit. Basic Latin and Latin-1 are
  mapped as Unicode does, and so are the code points beyond Latin-1 whose lower-case form
  falls into Latin-1 or ASCII (U+0130, U+0178, U+1E9E, U+212A, U+212B). The model leaves
  every other code unit as it is, where JavaScript may map it to other code units beyond
  Latin-1. A title does not depend on which ones: no keyword of the tables contains such a
  code unit, none of them is white space, and \<open>extractTopics\<close> replaces each by a space.
\<close>

definition lowerUnit :: "nat \<Rightarrow> jsstring" where
  "lowerUnit c =
     (if 65 \<le> c \<and> c \<le> 90 then [c + 32]
      else if 192 \<le> c \<and> c \<le> 222 \<and> c \<noteq> 215 then [c + 32]
      else if c = 304 then [105, 775]
      else if c = 376 then [255]
      else if c = 7838 then [223]
      else if c = 8490 then [107]
      else if c = 8491 then [229]
      else [c])"

definition toLowerCase :: "jsstring \<Rightarrow> jsstring" where
  "toLowerCase s = concat (map lowerUnit s)"

text \<open>
  \<^verbatim>\<open>toUpperCase\<close> of one code unit, exact on Basic Latin and Latin-1 (sharp s becomes
  \<^verbatim>\<open>SS\<close>, y diaeresis U+0178, micro sign U+039C); other code units are left as they are.
  The topics of \<open>extractTopics\<close> consist of the letters a to z only, as is proved below.
\<close>

definition upperUnit :: "nat \<Rightarrow> jsstring" where
  "upperUnit c =
     (if 97 \<le> c \<and> c \<le> 122 then [c - 32]
      else if 224 \<le> c \<and> c \<le> 254 \<and> c \<noteq> 247 then [c - 32]
      else if c = 223 then [83, 83]
      else if c = 255 then [376]
      else if c = 181 then [924]
      else [c])"

text \<open>\<^verbatim>\<open>word.charAt(0).toUpperCase() + word.slice(1)\<close>; \<^verbatim>\<open>charAt(0)\<close> of the empty string
  is the empty string.\<close>

fun capitalize :: "jsstring \<Rightarrow> jsstring" where
  "capitalize [] = []"
| "capitalize (c # cs) = upperUnit c @ cs"

text \<open>\<^verbatim>\<open>String.prototype.trim\<close>: white space is removed at both ends.\<close>

definition trim :: "jsstring \<Rightarrow> jsstring" where
  "trim s = rev (dropWhile isSpace (rev (dropWhile isSpace s)))"

text \<open>\<^verbatim>\<open>s.includes(k)\<close>: \<open>k\<close> occurs in \<open>s\<close> as a contiguous substring.\<close>

fun str_includes :: "jsstring \<Rightarrow> jsstring \<Rightarrow> bool" where
  "str_includes [] k \<longleftrightarrow> k = []"
| "str_includes (c # cs) k \<longleftrightarrow> take (length k) (c # cs) = k \<or> str_includes cs k"

text \<open>\<^verbatim>\<open>parts.join(' ')\<close>.\<close>

fun join_sp :: "jsstring list \<Rightarrow> jsstring" where
  "join_sp [] = []"
| "join_sp [w] = w"
| "join_sp (w # v # ws) = w @ 32 # join_sp (v # ws)"

text \<open>
  \<^verbatim>\<open>s.split(/\s+/)\<close>: the pieces between maximal runs of white space. A run at the start
  or at the end of the string leaves an empty piece there, and the empty string splits into
  one empty piece.
\<close>

fun split_ws :: "jsstring \<Rightarrow> jsstring list" where
  "split_ws [] = [[]]"
| "split_ws (c # cs) =
     (if isSpace c then
        (case cs of
           [] \<Rightarrow> [[], []]
         | d # ds \<Rightarrow> if isSpace d then split_ws cs else [] # split_ws cs)
      else
        (case split_ws cs of
           [] \<Rightarrow> [[c]]
         | w # ws \<Rightarrow> (c # w) # ws))"


section \<open>The conversation-title heuristic (ChatArea.tsx)\<close>

subsection \<open>extractTopics\<close>

definition commonWords :: "jsstring list" where
  "commonWords =
     map js [
       ''le'', ''la'', ''les'', ''un'', ''une'', ''des'', ''du'', ''de'', ''da'', ''et'', ''ou'',
       ''mais'', ''donc'', ''car'', ''je'', ''tu'', ''il'', ''elle'', ''nous'', ''vous'', ''ils'',
       ''elles'', ''mon'', ''ma'', ''mes'', ''ton'', ''ta'', ''tes'', ''son'', ''sa'', ''ses'',
       ''notre'', ''votre'', ''leur'', ''leurs'', ''ce'', ''cet'', ''cette'', ''ces'', ''sur'',
       ''dans'', ''qui'', ''que'', ''quoi'', ''dont''] @
     [js ''o'' @ [249]] @
     map js [
       ''quand'', ''comment'', ''pourquoi'', ''combien'', ''avec'', ''pour'',
       ''the'', ''a'', ''an'', ''and'', ''or'', ''but'', ''so'', ''because'', ''if'', ''when'',
       ''where'', ''how'', ''why'', ''what'', ''i'', ''you'', ''he'', ''she'', ''it'', ''we'',
       ''they'', ''my'', ''your'', ''his'', ''her'', ''its'', ''our'', ''their'', ''this'',
       ''that'', ''these'', ''those'', ''which'', ''who'', ''whom'', ''whose'', ''can'', ''could'',
       ''will'', ''would'', ''should'', ''shall'', ''may'', ''might'', ''must'', ''do'', ''does'',
       ''did'', ''have'', ''has'', ''had'', ''get'', ''got'', ''is'', ''are'', ''was'', ''were'',
       ''be'', ''been'', ''being'', ''please'', ''merci'', ''svp'', ''very'', ''really'', ''just'',
       ''only'', ''also'', ''like'', ''need'', ''want'', ''know'', ''think'', ''see'', ''use'',
       ''make'', ''work'', ''good'', ''bad'', ''best'', ''better'', ''more'', ''most'', ''some'',
       ''any'', ''all'', ''each'', ''every'', ''other'', ''many'', ''much'', ''few'', ''little'',
       ''long'', ''short'', ''high'', ''low'', ''big'', ''small'', ''new'', ''old'']"

text \<open>The letters of \<^verbatim>\<open>/^[a-zA-Z...]+$/\<close>: a to z, A to Z and the sixteen accented
  letters listed in the source, in its order.\<close>

definition isTopicLetter :: "nat \<Rightarrow> bool" where
  "isTopicLetter c \<longleftrightarrow>
     isAsciiLetter c \<or>
     c \<in> set [224, 226, 228, 233, 232, 234, 235, 239, 238, 244, 246, 249, 251, 252, 255, 231]"

definition replaceNonWord :: "jsstring \<Rightarrow> jsstring" where
  "replaceNonWord s = map (\<lambda>c. if isWordChar c \<or> isSpace c then c else 32) s"

definition removeDigits :: "jsstring \<Rightarrow> jsstring" where
  "removeDigits s = filter (\<lambda>c. \<not> isDigit c) s"

definition keepWord :: "jsstring \<Rightarrow> bool" where
  "keepWord w \<longleftrightarrow> length w > 2 \<and> w \<notin> set commonWords \<and> w \<noteq> [] \<and> list_all isTopicLetter w"

text \<open>The constant \<^verbatim>\<open>words\<close> of the source.\<close>

definition topicWords :: "jsstring \<Rightarrow> jsstring list" where
  "topicWords text =
     filter keepWord
       (map (\<lambda>w. trim (toLowerCase w)) (split_ws (removeDigits (replaceNonWord text))))"

text \<open>
  The \<^verbatim>\<open>Map\<close> \<^verbatim>\<open>wordCount\<close> as an association list in insertion order:
  \<^verbatim>\<open>wordCount.set(word, (wordCount.get(word) || 0) + 1)\<close> keeps the position of a key that is
  already there and appends a new one.
\<close>

fun countWord :: "jsstring \<Rightarrow> (jsstring \<times> nat) list \<Rightarrow> (jsstring \<times> nat) list" where
  "countWord w [] = [(w, 1)]"
| "countWord w ((k, n) # rest) =
     (if k = w then (k, n + 1) # rest else (k, n) # countWord w rest)"

definition wordCount :: "jsstring list \<Rightarrow> (jsstring \<times> nat) list" where
  "wordCount ws = foldl (\<lambda>m w. countWord w m) [] ws"

text \<open>
  \<^verbatim>\<open>.sort((a, b) => b[1] - a[1])\<close>: \<^verbatim>\<open>Array.prototype.sort\<close> is stable, so the entries are
  ordered by descending count and entries of equal count stay in insertion order;
  \<open>sort_key\<close> is the stable insertion sort, here on the negated count.
\<close>

definition sortByFrequency :: "(jsstring \<times> nat) list \<Rightarrow> (jsstring \<times> nat) list" where
  "sortByFrequency es = sort_key (\<lambda>e. - int (snd e)) es"

definition extractTopics :: "jsstring \<Rightarrow> jsstring list" where
  "extractTopics text = map fst (take 8 (sortByFrequency (wordCount (topicWords text))))"


subsection \<open>createTitleFromTopics\<close>

record pattern =
  pattern_keywords :: "jsstring list"
  pattern_title :: jsstring

definition patterns :: "pattern list" where
  "patterns = [
    \<lparr>pattern_keywords = [js ''analyse'', js ''analyze'', js ''analysis'', [233] @ js ''tude'',
       js ''analyser''],
     pattern_title = js ''Analyse''\<rparr>,
    \<lparr>pattern_keywords = [js ''code'', js ''programming'', js ''d'' @ [233] @ js ''veloppement'',
       js ''development'', js ''programmer''],
     pattern_title = js ''D'' @ [233] @ js ''veloppement''\<rparr>,
    \<lparr>pattern_keywords = [js ''recherche'', js ''research'', [233] @ js ''tude'', js ''study'',
       js ''chercher''],
     pattern_title = js ''Recherche''\<rparr>,
    \<lparr>pattern_keywords = [js ''document'', js ''pdf'', js ''fichier'', js ''file'', js ''paper'',
       js ''rapport''],
     pattern_title = js ''Document''\<rparr>,
    \<lparr>pattern_keywords = [js ''machine learning'', js ''ai'', js ''intelligence artificielle'',
       js ''deep learning'', js ''neural''],
     pattern_title = js ''IA''\<rparr>,
    \<lparr>pattern_keywords = [js ''donn'' @ [233] @ js ''es'', js ''data'', js ''database'',
       js ''base de donn'' @ [233] @ js ''es'', js ''dataset''],
     pattern_title = js ''Donn'' @ [233] @ js ''es''\<rparr>,
    \<lparr>pattern_keywords = [js ''web'', js ''site'', js ''internet'', js ''url'', js ''html'',
       js ''css''],
     pattern_title = js ''Web''\<rparr>,
    \<lparr>pattern_keywords = [js ''python'', js ''javascript'', js ''java'', js ''cpp'', js ''c++'',
       js ''rust'', js ''go''],
     pattern_title = js ''Code''\<rparr>,
    \<lparr>pattern_keywords = [js ''biblioth'' @ [232] @ js ''que'', js ''library'', js ''framework'',
       js ''outil'', js ''tool'', js ''api''],
     pattern_title = js ''Outils''\<rparr>,
    \<lparr>pattern_keywords = [js ''m'' @ [233] @ js ''thodologie'', js ''methodology'',
       js ''m'' @ [233] @ js ''thode'', js ''method'', js ''approche''],
     pattern_title = js ''M'' @ [233] @ js ''thode''\<rparr>,
    \<lparr>pattern_keywords = [js ''explication'', js ''explain'', js ''expliquer'', js ''comment'',
       js ''pourquoi''],
     pattern_title = js ''Explication''\<rparr>,
    \<lparr>pattern_keywords = [js ''probl'' @ [232] @ js ''me'', js ''problem'', js ''erreur'',
       js ''error'', js ''bug'', js ''issue''],
     pattern_title = js ''Probl'' @ [232] @ js ''me''\<rparr>,
    \<lparr>pattern_keywords = [js ''optimisation'', js ''optimization'',
       js ''am'' @ [233] @ js ''lioration'', js ''improvement'', js ''performance''],
     pattern_title = js ''Optimisation''\<rparr>,
    \<lparr>pattern_keywords = [js ''configuration'', js ''config'', js ''setup'', js ''installation'',
       js ''install''],
     pattern_title = js ''Configuration''\<rparr>,
    \<lparr>pattern_keywords = [js ''test'', js ''testing'', js ''debug'', js ''debugging'',
       js ''validation''],
     pattern_title = js ''Test''\<rparr>,
    \<lparr>pattern_keywords = [js ''s'' @ [233] @ js ''curit'' @ [233], js ''security'',
       js ''authentification'', js ''auth'', js ''encryption''],
     pattern_title = js ''S'' @ [233] @ js ''curit'' @ [233]\<rparr>,
    \<lparr>pattern_keywords = [js ''guide'', js ''tutorial'', js ''tutoriel'', js ''exemple'',
       js ''example''],
     pattern_title = js ''Guide''\<rparr>]"

definition defaultTitle :: jsstring where
  "defaultTitle = js ''Nouvelle Conversation''"

text \<open>\<^verbatim>\<open>pattern.keywords.some(keyword => fullText.includes(keyword))\<close>.\<close>

definition patternMatches :: "pattern \<Rightarrow> jsstring \<Rightarrow> bool" where
  "patternMatches p fullText \<longleftrightarrow> list_ex (\<lambda>keyword. str_includes fullText keyword) (pattern_keywords p)"

definition contextWords :: "pattern \<Rightarrow> jsstring list \<Rightarrow> jsstring list" where
  "contextWords p topics =
     take 2 (filter (\<lambda>topic.
        topic \<notin> set (pattern_keywords p) \<and>
        length topic > 3 \<and>
        topic \<notin> set (map js [''pour'', ''avec'', ''dans'', ''from'', ''with'', ''using'']))
      topics)"

text \<open>The body of the \<^verbatim>\<open>for\<close> loop for a pattern that matches.\<close>

definition patternTitle :: "pattern \<Rightarrow> jsstring list \<Rightarrow> jsstring" where
  "patternTitle p topics =
     (let cws = contextWords p topics in
      if length cws > 0
      then take 25 (pattern_title p @ 32 # join_sp (map capitalize cws))
      else pattern_title p)"

text \<open>The \<^verbatim>\<open>for\<close> loop over the patterns: the first pattern that matches returns;
  \<open>None\<close> when the loop runs to its end.\<close>

fun scanPatterns :: "pattern list \<Rightarrow> jsstring list \<Rightarrow> jsstring \<Rightarrow> jsstring option" where
  "scanPatterns [] topics fullText = None"
| "scanPatterns (p # ps) topics fullText =
     (if patternMatches p fullText then Some (patternTitle p topics)
      else scanPatterns ps topics fullText)"

text \<open>The code after the loop.\<close>

definition fallbackTitle :: "jsstring list \<Rightarrow> jsstring" where
  "fallbackTitle topics =
     (if length topics \<ge> 2 then
        (let cleanedTopics = map capitalize (take 3 (filter (\<lambda>topic. length topic > 2) topics)) in
         if length cleanedTopics > 0 then take 25 (join_sp cleanedTopics)
         else defaultTitle)
      else if length topics = 1 \<and> length (topics ! 0) > 3 then
        js ''Discussion '' @ capitalize (topics ! 0)
      else defaultTitle)"

definition createTitleFromTopics :: "jsstring list \<Rightarrow> jsstring \<Rightarrow> jsstring" where
  "createTitleFromTopics topics fullText =
     (case scanPatterns patterns topics fullText of
        Some t \<Rightarrow> t
      | None \<Rightarrow> fallbackTitle topics)"


subsection \<open>generateConversationTitle\<close>

datatype role = User | Assistant

datatype search_type = Document | Web | NoSearch

text \<open>The interfaces \<^verbatim>\<open>Source\<close> and \<^verbatim>\<open>ChatMessage\<close> of the type declarations;
  an optional field is an \<open>option\<close>.\<close>

record source =
  source_id :: int
  source_type :: jsstring
  source_name :: jsstring
  source_content :: jsstring

record chat_message =
  role :: role
  content :: jsstring
  sources :: "source list option"
  thinking_process :: "jsstring option"
  search_type :: "search_type option"
  timestamp :: "jsstring option"
  msg_id :: "jsstring option"

definition generateConversationTitle :: "chat_message list \<Rightarrow> jsstring" where
  "generateConversationTitle messages =
     (let userMessages = filter (\<lambda>msg. role msg = User) messages in
      if length userMessages = 0 then defaultTitle
      else
        (let allUserText = toLowerCase (join_sp (map content userMessages));
             topics = extractTopics allUserText
         in createTitleFromTopics topics allUserText))"


section \<open>Authentication error messages\<close>

text \<open>The error object handed to \<^verbatim>\<open>getAuthErrorMessage\<close> is read at its properties
  \<^verbatim>\<open>code\<close> and \<^verbatim>\<open>message\<close>; a property that is missing is \<open>None\<close>.\<close>

record auth_error =
  err_code :: "jsstring option"
  err_message :: "jsstring option"

text \<open>The \<^verbatim>\<open>case\<close> labels of the \<^verbatim>\<open>switch\<close> with the string each one returns, in the
  order of the source.\<close>

definition authErrorTable :: "(jsstring \<times> jsstring) list" where
  "authErrorTable = [
    (js ''auth/popup-closed-by-user'',
      js ''La fen'' @ [234] @ js ''tre de connexion a '' @ [233] @ js ''t'' @ [233] @
      js '' ferm'' @ [233] @ js ''e. Veuillez r'' @ [233] @ js ''essayer.''),
    (js ''auth/popup-blocked'',
      js ''La fen'' @ [234] @ js ''tre de connexion a '' @ [233] @ js ''t'' @ [233] @
      js '' bloqu'' @ [233] @ js ''e par votre navigateur. Veuillez autoriser les fen'' @
      [234] @ js ''tres contextuelles et r'' @ [233] @ js ''essayer.''),
    (js ''auth/cancelled-popup-request'',
      js ''Un autre processus de connexion est d'' @ [233] @ js ''j'' @ [224] @
      js '' en cours.''),
    (js ''auth/account-exists-with-different-credential'',
      js ''Un compte existe d'' @ [233] @ js ''j'' @ [224] @ js '' avec la m'' @ [234] @
      js ''me adresse e-mail mais avec des identifiants de connexion diff'' @ [233] @
      js ''rents. Veuillez essayer de vous connecter avec une m'' @ [233] @ js ''thode diff'' @
      [233] @ js ''rente.''),
    (js ''auth/invalid-email'',
      js ''L'' @ [39] @ js ''adresse e-mail n'' @ [39] @ js ''est pas valide.''),
    (js ''auth/user-disabled'',
      js ''Ce compte utilisateur a '' @ [233] @ js ''t'' @ [233] @ js '' d'' @ [233] @
      js ''sactiv'' @ [233] @ js ''.''),
    (js ''auth/user-not-found'',
      js ''Aucun compte utilisateur trouv'' @ [233] @ js '' avec cette adresse e-mail.''),
    (js ''auth/wrong-password'',
      js ''Le mot de passe est incorrect.''),
    (js ''auth/email-already-in-use'',
      js ''Un compte avec cette adresse e-mail existe d'' @ [233] @ js ''j'' @ [224] @ js ''.''),
    (js ''auth/weak-password'',
      js ''Le mot de passe est trop faible. Veuillez choisir un mot de passe plus fort.''),
    (js ''auth/network-request-failed'',
      js ''Erreur r'' @ [233] @ js ''seau. Veuillez v'' @ [233] @
      js ''rifier votre connexion Internet et r'' @ [233] @ js ''essayer.''),
    (js ''auth/too-many-requests'',
      js ''Trop de tentatives infructueuses. Veuillez r'' @ [233] @ js ''essayer plus tard.''),
    (js ''auth/requires-recent-login'',
      js ''Cette op'' @ [233] @ js ''ration n'' @ [233] @
      js ''cessite une authentification r'' @ [233] @ js ''cente. Veuillez vous reconnecter.'')]"

definition unexpectedErrorMessage :: jsstring where
  "unexpectedErrorMessage =
    js ''Une erreur inattendue s'' @ [39] @ js ''est produite. Veuillez r'' @ [233] @
    js ''essayer.''"

text \<open>\<^verbatim>\<open>x || d\<close> on an optional string: a missing and an empty string are both falsy.\<close>

fun or_else :: "jsstring option \<Rightarrow> jsstring \<Rightarrow> jsstring" where
  "or_else None d = d"
| "or_else (Some x) d = (if x = [] then d else x)"

definition getAuthErrorMessage :: "auth_error \<Rightarrow> jsstring" where
  "getAuthErrorMessage error =
     (let errorCode = or_else (err_code error) [] in
      case map_of authErrorTable errorCode of
        Some m \<Rightarrow> m
      | None \<Rightarrow> or_else (err_message error) unexpectedErrorMessage)"


section \<open>The state stores\<close>

text \<open>
  A configuration object is a JavaScript object: a finite map from property names to
  values. The object spread \<^verbatim>\<open>{ ...a, ...b }\<close> copies the properties of \<open>a\<close> and then
  those of \<open>b\<close>, so a property of \<open>b\<close> overrides the one of \<open>a\<close>: it is \<open>a ++ b\<close>.
  A \<^verbatim>\<open>Partial<AppConfig>\<close> is such an object with any subset of the properties.
\<close>

datatype jsvalue = Undefined | Str jsstring | Num real | Boolean bool

type_synonym js_object = "jsstring \<rightharpoonup> jsvalue"

record status_response =
  ollama_status :: jsstring
  qdrant_status :: jsstring
  web_search_status :: jsstring
  openrouter_status :: jsstring
  model_available :: bool

text \<open>The field \<^verbatim>\<open>state\<close> of the class \<^verbatim>\<open>Store\<close> (store/index.ts), extended by the two
  fields that the \<^verbatim>\<open>StoreState\<close> of the context store adds.\<close>

record class_state =
  config :: js_object
  messages :: "chat_message list"
  processedDocuments :: "jsstring list"
  status :: "status_response option"
  isLoading :: bool
  sidebarOpen :: bool

record store_state = class_state +
  currentConversationId :: "jsstring option"
  conversationsRefreshTrigger :: nat

type_synonym local_storage = "jsstring \<rightharpoonup> jsstring"

text \<open>
  \<^verbatim>\<open>Store.updateConfig\<close> of store/index.ts, on the store's state and the browser's local
  storage. \<^verbatim>\<open>JSON.stringify\<close> is the parameter \<open>stringify\<close>; the listeners that
  \<^verbatim>\<open>notify\<close> calls only ask React to render again.
\<close>

definition Store_updateConfig ::
  "(js_object \<Rightarrow> jsstring) \<Rightarrow> js_object \<Rightarrow> class_state \<times> local_storage \<Rightarrow> class_state \<times> local_storage"
where
  "Store_updateConfig stringify newConfig sl =
     (let this_state = (fst sl)\<lparr>config := config (fst sl) ++ newConfig\<rparr>
      in (this_state, (snd sl)(js ''deepseek-rag-config'' \<mapsto> stringify (config this_state))))"

text \<open>
  The actions of the context store (\<^verbatim>\<open>StoreProvider\<close>). An action is a closure of one
  render: \<open>state\<close> is the state that render saw, and \<^verbatim>\<open>setState(prev => ...)\<close> applies to
  the state \<open>prev\<close> current when the update runs.
\<close>

definition updateConfig ::
  "(js_object \<Rightarrow> jsstring) \<Rightarrow> store_state \<Rightarrow> js_object \<Rightarrow> store_state \<times> local_storage \<Rightarrow> store_state \<times> local_storage"
where
  "updateConfig stringify state newConfig sl =
     (let updatedConfig = config state ++ newConfig
      in ((fst sl)\<lparr>config := updatedConfig\<rparr>,
          (snd sl)(js ''deepseek-rag-config'' \<mapsto> stringify updatedConfig)))"

text \<open>\<^verbatim>\<open>defaultState\<close>, the state of the context store before anything is loaded from the
  local storage. The two strings that the source configures in advance, the API key and the
  URL of the vector database, are parameters.\<close>

definition defaultState :: "jsstring \<Rightarrow> jsstring \<Rightarrow> store_state" where
  "defaultState qdrant_api_key qdrant_url =
     \<lparr>config = map_of [
        (js ''qdrant_api_key'', Str qdrant_api_key),
        (js ''qdrant_url'', Str qdrant_url),
        (js ''model_version'', Str (js ''deepseek-r1:1.5b'')),
        (js ''similarity_threshold'', Num (7 / 10)),
        (js ''use_web_search'', Boolean False),
        (js ''rag_enabled'', Boolean True),
        (js ''force_web_search'', Boolean False),
        (js ''dark_mode'', Boolean False),
        (js ''openrouter_api_key'', Undefined),
        (js ''openrouter_model'', Undefined),
        (js ''ollama_model'', Undefined),
        (js ''provider'', Str (js ''ollama''))],
      messages = [],
      processedDocuments = [],
      status = None,
      isLoading = False,
      sidebarOpen = True,
      currentConversationId = None,
      conversationsRefreshTrigger = 0\<rparr>"

definition addMessage :: "chat_message \<Rightarrow> store_state \<Rightarrow> store_state" where
  "addMessage message prev = prev\<lparr>messages := messages prev @ [message]\<rparr>"

definition clearMessages :: "store_state \<Rightarrow> store_state" where
  "clearMessages prev = prev\<lparr>messages := []\<rparr>"

definition setMessages :: "chat_message list \<Rightarrow> store_state \<Rightarrow> store_state" where
  "setMessages ms prev = prev\<lparr>messages := ms\<rparr>"

definition setLoading :: "bool \<Rightarrow> store_state \<Rightarrow> store_state" where
  "setLoading loading prev = prev\<lparr>isLoading := loading\<rparr>"

definition setCurrentConversationId :: "jsstring option \<Rightarrow> store_state \<Rightarrow> store_state" where
  "setCurrentConversationId cid prev = prev\<lparr>currentConversationId := cid\<rparr>"


section \<open>Editing a message (ChatArea.tsx)\<close>




section \<open>Submitting a chat message (ChatInput)\<close>

datatype toast = ToastError jsstring | ToastSuccess jsstring

text \<open>The interface \<^verbatim>\<open>ChatResponse\<close>.\<close>

record chat_response =
  response :: jsstring
  response_sources :: "source list option"
  response_thinking_process :: "jsstring option"
  response_search_type :: "search_type option"

text \<open>What \<^verbatim>\<open>chatAPI.sendMessage\<close> does: it resolves with a response, or it rejects
  with an error, of which the handler reads \<^verbatim>\<open>error.response?.data?.detail\<close>.\<close>

datatype api_result = Resolved chat_response | Rejected "jsstring option"

definition rateLimitMessage :: jsstring where
  "rateLimitMessage =
    js ''Vous avez atteint la limite d'' @ [39] @ js ''utilisation du mod'' @ [232] @
    js ''le actuel. Veuillez passer '' @ [224] @ js '' un autre mod'' @ [232] @ js ''le.''"

definition processErrorMessage :: "jsstring \<Rightarrow> jsstring" where
  "processErrorMessage errorDetail =
     (if str_includes errorDetail (js ''OpenRouter error: 404'') \<and>
         str_includes errorDetail (js ''No endpoints found'')
      then rateLimitMessage
      else if str_includes errorDetail (js ''OpenRouter error: 429'') \<and>
         str_includes errorDetail (js ''temporarily rate-limited upstream'')
      then rateLimitMessage
      else errorDetail)"

definition sendFailedMessage :: jsstring where
  "sendFailedMessage = [201] @ js ''chec de l'' @ [39] @ js ''envoi du message''"

definition apologyMessage :: jsstring where
  "apologyMessage =
    js ''D'' @ [233] @ js ''sol'' @ [233] @ js '', j'' @ [39] @ js ''ai rencontr'' @ [233] @
    js '' une erreur lors du traitement de votre demande. Veuillez r'' @ [233] @ js ''essayer.''"

text \<open>An object literal with the properties \<^verbatim>\<open>role\<close> and \<^verbatim>\<open>content\<close> only.\<close>

definition plainMessage :: "role \<Rightarrow> jsstring \<Rightarrow> chat_message" where
  "plainMessage r c =
     \<lparr>role = r, content = c, sources = None, thinking_process = None, search_type = None,
      timestamp = None, msg_id = None\<rparr>"

text \<open>The state that \<^verbatim>\<open>handleSubmit\<close> works on: the store, the text of the input field
  and the notifications shown so far.\<close>

record chat_input =
  input_store :: store_state
  input_message :: jsstring
  input_toasts :: "toast list"

definition handleSubmit :: "api_result \<Rightarrow> chat_input \<Rightarrow> chat_input" where
  "handleSubmit api st =
     (if trim (input_message st) = [] \<or> isLoading (input_store st) then st
      else
        (let userMessage = trim (input_message st);
             st1 = st\<lparr>input_message := [],
                      input_store :=
                        setLoading True (addMessage (plainMessage User userMessage) (input_store st))\<rparr>;
             st2 =
               (case api of
                  Resolved r \<Rightarrow>
                    st1\<lparr>input_store :=
                      addMessage
                        \<lparr>role = Assistant, content = response r, sources = response_sources r,
                         thinking_process = response_thinking_process r,
                         search_type = response_search_type r, timestamp = None, msg_id = None\<rparr>
                        (input_store st1)\<rparr>
                | Rejected detail \<Rightarrow>
                    (let errorDetail = or_else detail sendFailedMessage;
                         userFriendlyMessage = processErrorMessage errorDetail
                     in st1\<lparr>input_toasts := input_toasts st1 @ [ToastError userFriendlyMessage],
                            input_store :=
                              addMessage (plainMessage Assistant apologyMessage) (input_store st1)\<rparr>))
         in st2\<lparr>input_store := setLoading False (input_store st2)\<rparr>))"


section \<open>Conversations in the hosted database (AuthContext)\<close>

text \<open>The interface \<^verbatim>\<open>User\<close>; a \<^verbatim>\<open>Date\<close> is its time value in milliseconds.\<close>

record user =
  user_id :: jsstring
  email :: jsstring
  firstName :: jsstring
  lastName :: jsstring
  displayName :: "jsstring option"
  user_createdAt :: int

text \<open>The interface \<^verbatim>\<open>Conversation\<close>.\<close>

record conversation =
  conv_id :: jsstring
  userId :: jsstring
  title :: jsstring
  conv_messages :: "chat_message list"
  createdAt :: int
  updatedAt :: int
  conv_config :: "js_object option"

text \<open>
  The data of a document of the collection \<^verbatim>\<open>conversations\<close>. A field that the document
  lacks, or a time stamp that the server has not set yet, is \<open>None\<close>. The collection is
  the list of its documents with their ids, in the order in which a query returns them.
\<close>

record conversation_data =
  data_userId :: jsstring
  data_title :: jsstring
  data_messages :: "chat_message list option"
  data_createdAt :: "int option"
  data_updatedAt :: "int option"
  data_config :: "js_object option"

type_synonym firestore = "(jsstring \<times> conversation_data) list"

text \<open>A value thrown: \<^verbatim>\<open>new Error(message)\<close>, or the rejection of a call to the hosted
  database or the backend.\<close>

datatype thrown = Error jsstring | Rejection jsstring

text \<open>
  What the hosted services do during one call, which the code does not decide: whether the
  database call is rejected, the id that \<^verbatim>\<open>addDoc\<close> gives a new document, the time of
  \<^verbatim>\<open>serverTimestamp()\<close> and of \<^verbatim>\<open>new Date()\<close>, and whether the request to the backend
  succeeds.
\<close>

record services =
  rejects :: "jsstring option"
  fresh_id :: jsstring
  now :: int
  backend_ok :: bool

text \<open>The argument of \<^verbatim>\<open>saveConversation\<close>: a conversation without id, owner and dates.\<close>

record new_conversation =
  new_title :: jsstring
  new_messages :: "chat_message list"
  new_config :: "js_object option"

text \<open>The argument of \<^verbatim>\<open>updateConversation\<close>, with the properties that its callers
  pass: \<^verbatim>\<open>{ messages, config }\<close> and \<^verbatim>\<open>{ title }\<close>.\<close>

record conversation_updates =
  upd_title :: "jsstring option"
  upd_messages :: "chat_message list option"
  upd_config :: "js_object option"

definition toConversation :: "int \<Rightarrow> jsstring \<times> conversation_data \<Rightarrow> conversation" where
  "toConversation today d =
     \<lparr>conv_id = fst d,
      userId = data_userId (snd d),
      title = data_title (snd d),
      conv_messages = (case data_messages (snd d) of Some ms \<Rightarrow> ms | None \<Rightarrow> []),
      createdAt = (case data_createdAt (snd d) of Some t \<Rightarrow> t | None \<Rightarrow> today),
      updatedAt = (case data_updatedAt (snd d) of Some t \<Rightarrow> t | None \<Rightarrow> today),
      conv_config = data_config (snd d)\<rparr>"

text \<open>
  \<^verbatim>\<open>getUserConversations\<close>: the query \<^verbatim>\<open>where('userId', '==', user.id)\<close> selects the
  documents of the owner; the comparator \<^verbatim>\<open>b.updatedAt.getTime() - a.updatedAt.getTime()\<close>
  of the stable \<^verbatim>\<open>sort\<close> orders them by descending update time.
\<close>

definition getUserConversations ::
  "user option \<Rightarrow> services \<Rightarrow> firestore \<Rightarrow> thrown + conversation list"
where
  "getUserConversations u srv db =
     (case u of
        None \<Rightarrow> Inr []
      | Some usr \<Rightarrow>
          (case rejects srv of
             Some e \<Rightarrow> Inl (Rejection e)
           | None \<Rightarrow>
               (let querySnapshot = filter (\<lambda>d. data_userId (snd d) = user_id usr) db;
                    conversations = map (toConversation (now srv)) querySnapshot
                in Inr (sort_key (\<lambda>c. - updatedAt c) conversations))))"

definition noUserLoggedIn :: thrown where
  "noUserLoggedIn = Error (js ''No user logged in'')"

definition saveConversation ::
  "user option \<Rightarrow> services \<Rightarrow> new_conversation \<Rightarrow> firestore \<Rightarrow> (thrown + jsstring) \<times> firestore"
where
  "saveConversation u srv conversation db =
     (case u of
        None \<Rightarrow> (Inl noUserLoggedIn, db)
      | Some usr \<Rightarrow>
          (case rejects srv of
             Some e \<Rightarrow> (Inl (Rejection e), db)
           | None \<Rightarrow>
               (Inr (fresh_id srv),
                db @ [(fresh_id srv,
                  \<lparr>data_userId = user_id usr,
                   data_title = new_title conversation,
                   data_messages = Some (new_messages conversation),
                   data_createdAt = Some (now srv),
                   data_updatedAt = Some (now srv),
                   data_config = new_config conversation\<rparr>)])))"

text \<open>\<^verbatim>\<open>updateDoc\<close> writes the given fields into the document and is rejected when there
  is no document of that id.\<close>

definition applyUpdates :: "conversation_updates \<Rightarrow> int \<Rightarrow> conversation_data \<Rightarrow> conversation_data" where
  "applyUpdates updates today d =
     d\<lparr>data_title := (case upd_title updates of Some t \<Rightarrow> t | None \<Rightarrow> data_title d),
       data_messages := (case upd_messages updates of Some ms \<Rightarrow> Some ms | None \<Rightarrow> data_messages d),
       data_config := (case upd_config updates of Some c \<Rightarrow> Some c | None \<Rightarrow> data_config d),
       data_updatedAt := Some today\<rparr>"

definition updateConversation ::
  "user option \<Rightarrow> services \<Rightarrow> jsstring \<Rightarrow> conversation_updates \<Rightarrow> firestore \<Rightarrow> (thrown + unit) \<times> firestore"
where
  "updateConversation u srv conversationId updates db =
     (case u of
        None \<Rightarrow> (Inl noUserLoggedIn, db)
      | Some usr \<Rightarrow>
          (case rejects srv of
             Some e \<Rightarrow> (Inl (Rejection e), db)
           | None \<Rightarrow>
               (if conversationId \<in> fst ` set db
                then (Inr (),
                      map (\<lambda>d. if fst d = conversationId
                                then (fst d, applyUpdates updates (now srv) (snd d)) else d) db)
                else (Inl (Rejection (js ''not-found'')), db))))"

text \<open>
  \<^verbatim>\<open>deleteConversation\<close>: after \<^verbatim>\<open>deleteDoc\<close> the request to the backend is made inside
  \<^verbatim>\<open>try\<close>/\<^verbatim>\<open>catch\<close>; its failure is logged and not thrown.
\<close>

definition deleteConversation ::
  "user option \<Rightarrow> services \<Rightarrow> jsstring \<Rightarrow> firestore \<Rightarrow> (thrown + unit) \<times> firestore"
where
  "deleteConversation u srv conversationId db =
     (case u of
        None \<Rightarrow> (Inl noUserLoggedIn, db)
      | Some usr \<Rightarrow>
          (case rejects srv of
             Some e \<Rightarrow> (Inl (Rejection e), db)
           | None \<Rightarrow>
               (let db' = filter (\<lambda>d. fst d \<noteq> conversationId) db
                in if backend_ok srv then (Inr (), db') else (Inr (), db'))))"


section \<open>Deleting a conversation (ConversationsList)\<close>

text \<open>The state that \<^verbatim>\<open>handleDeleteConversation\<close> reads and writes: the logged-in user
  and the database behind \<^verbatim>\<open>useAuth\<close>, the store, the state of the component and the
  notifications.\<close>

record conversations_list =
  auth_user :: "user option"
  database :: firestore
  list_store :: store_state
  conversations :: "conversation list"
  deletingId :: "jsstring option"
  menuOpenId :: "jsstring option"
  list_toasts :: "toast list"

definition deletedMessage :: jsstring where
  "deletedMessage = js ''Conversation supprim'' @ [233] @ js ''e''"

definition deleteFailedMessage :: jsstring where
  "deleteFailedMessage = [201] @ js ''chec de la suppression de la conversation''"

text \<open>\<open>confirmed\<close> is the answer of \<^verbatim>\<open>window.confirm\<close>.\<close>

definition handleDeleteConversation ::
  "bool \<Rightarrow> services \<Rightarrow> jsstring \<Rightarrow> conversations_list \<Rightarrow> conversations_list"
where
  "handleDeleteConversation confirmed srv conversationId st =
     (if \<not> confirmed then st
      else
        (let st1 = st\<lparr>deletingId := Some conversationId\<rparr>;
             st2 =
               (case deleteConversation (auth_user st1) srv conversationId (database st1) of
                  (Inr _, db') \<Rightarrow>
                    (let st3 = st1\<lparr>database := db',
                                   conversations :=
                                     filter (\<lambda>conv. conv_id conv \<noteq> conversationId) (conversations st1)\<rparr>;
                         st4 =
                           (if currentConversationId (list_store st) = Some conversationId
                            then st3\<lparr>list_store :=
                                   setCurrentConversationId None (clearMessages (list_store st3))\<rparr>
                            else st3)
                     in st4\<lparr>list_toasts := list_toasts st4 @ [ToastSuccess deletedMessage]\<rparr>)
                | (Inl _, db') \<Rightarrow>
                    st1\<lparr>database := db',
                        list_toasts := list_toasts st1 @ [ToastError deleteFailedMessage]\<rparr>)
         in st2\<lparr>deletingId := None, menuOpenId := None\<rparr>))"

section \<open>The title heuristic on the state of the browser\<close>

text \<open>
  The functions of the heuristic run in a browser whose state outlives a call: the store of
  the application, the local storage, the clock, and the \<^verbatim>\<open>RegExp\<close> objects, each of which
  carries a mutable \<^verbatim>\<open>lastIndex\<close>. This section embeds \<open>extractTopics\<close> and
  \<open>generateConversationTitle\<close> a second time, as functions that take this state and return
  it, with the regular expressions as objects of a heap.

  The four regular expression literals of \<open>extractTopics\<close>:
  \<^verbatim>\<open>/[^\w\s]/\<close>, \<^verbatim>\<open>/\d+/\<close>, \<^verbatim>\<open>/\s+/\<close> and \<^verbatim>\<open>/^[a-zA-Z...]+$/\<close>.
\<close>

datatype re_literal = NonWordNonSpace | Digits | WhiteSpaces | TopicLetters

text \<open>A \<^verbatim>\<open>RegExp\<close> object: its source, its flag \<^verbatim>\<open>g\<close> and its property \<^verbatim>\<open>lastIndex\<close>.\<close>

record regexp =
  re_source :: re_literal
  re_global :: bool
  re_lastIndex :: nat

text \<open>The state: the \<^verbatim>\<open>RegExp\<close> objects that exist (the address of an object is its
  position in the list), the store, the local storage and the time. The methods below are
  applied to addresses of objects of the list only.\<close>

record runtime =
  regexps :: "regexp list"
  app_store :: store_state
  app_storage :: local_storage
  clock :: int

text \<open>
  \<open>match_at lit s i\<close> is the end of the match of the literal in \<open>s\<close> that starts at
  position \<open>i\<close>, if there is one. The quantifier \<^verbatim>\<open>+\<close> is greedy; without the flag
  \<^verbatim>\<open>m\<close>, \<^verbatim>\<open>^\<close> matches at position 0 only and \<^verbatim>\<open>$\<close> at the end only. None of the
  four literals matches the empty string.
\<close>

fun match_at :: "re_literal \<Rightarrow> jsstring \<Rightarrow> nat \<Rightarrow> nat option" where
  "match_at NonWordNonSpace s i =
     (if i < length s \<and> \<not> isWordChar (s ! i) \<and> \<not> isSpace (s ! i) then Some (Suc i) else None)"
| "match_at Digits s i =
     (let n = length (takeWhile isDigit (drop i s)) in if 0 < n then Some (i + n) else None)"
| "match_at WhiteSpaces s i =
     (let n = length (takeWhile isSpace (drop i s)) in if 0 < n then Some (i + n) else None)"
| "match_at TopicLetters s i =
     (if i = 0 \<and> s \<noteq> [] \<and> list_all isTopicLetter s then Some (length s) else None)"

text \<open>The first of the given positions at which the literal matches, with the end of the
  match.\<close>

fun first_match :: "re_literal \<Rightarrow> jsstring \<Rightarrow> nat list \<Rightarrow> (nat \<times> nat) option" where
  "first_match lit s [] = None"
| "first_match lit s (i # ps) =
     (case match_at lit s i of Some e \<Rightarrow> Some (i, e) | None \<Rightarrow> first_match lit s ps)"

text \<open>The evaluation of a regular expression literal creates a new object, with
  \<^verbatim>\<open>lastIndex\<close> 0.\<close>

definition new_RegExp :: "re_literal \<Rightarrow> bool \<Rightarrow> runtime \<Rightarrow> nat \<times> runtime" where
  "new_RegExp lit g rt =
     (length (regexps rt),
      rt\<lparr>regexps := regexps rt @ [\<lparr>re_source = lit, re_global = g, re_lastIndex = 0\<rparr>]\<rparr>)"

definition set_lastIndex :: "nat \<Rightarrow> nat \<Rightarrow> runtime \<Rightarrow> runtime" where
  "set_lastIndex a n rt =
     rt\<lparr>regexps := (regexps rt)[a := (regexps rt ! a)\<lparr>re_lastIndex := n\<rparr>]\<rparr>"

text \<open>
  \<^verbatim>\<open>RegExp.prototype.exec\<close> on the object at address \<open>a\<close>: the search starts at
  \<^verbatim>\<open>lastIndex\<close> when the object has the flag \<^verbatim>\<open>g\<close> and at 0 otherwise; an object with the
  flag gets the end of the match as its new \<^verbatim>\<open>lastIndex\<close>, and 0 when there is no match. The
  result is the start and the end of the match. \<^verbatim>\<open>RegExp.prototype.test\<close> tells whether
  \<^verbatim>\<open>exec\<close> finds a match.
\<close>

definition RegExp_exec :: "nat \<Rightarrow> jsstring \<Rightarrow> runtime \<Rightarrow> (nat \<times> nat) option \<times> runtime" where
  "RegExp_exec a s rt =
     (let R = regexps rt ! a;
          lastIndex = (if re_global R then re_lastIndex R else 0)
      in case first_match (re_source R) s [lastIndex ..< Suc (length s)] of
           None \<Rightarrow> (None, if re_global R then set_lastIndex a 0 rt else rt)
         | Some (i, e) \<Rightarrow> (Some (i, e), if re_global R then set_lastIndex a e rt else rt))"

definition RegExp_test :: "nat \<Rightarrow> jsstring \<Rightarrow> runtime \<Rightarrow> bool \<times> runtime" where
  "RegExp_test a s rt = (case RegExp_exec a s rt of (m, rt1) \<Rightarrow> (m \<noteq> None, rt1))"

text \<open>
  The scan of \<^verbatim>\<open>String.prototype.replace\<close> with a regular expression that has the flag
  \<^verbatim>\<open>g\<close>, over the positions of the string and the position behind it: a position before
  \<open>e\<close>, the end of the last match, is inside that match; at any other position a match
  gives the replacement, and a code unit that starts no match is copied.
\<close>

fun replace_scan :: "re_literal \<Rightarrow> jsstring \<Rightarrow> jsstring \<Rightarrow> nat \<Rightarrow> nat list \<Rightarrow> jsstring" where
  "replace_scan lit repl s e [] = []"
| "replace_scan lit repl s e (i # ps) =
     (if i < e then replace_scan lit repl s e ps
      else
        (case match_at lit s i of
           Some e' \<Rightarrow>
             repl @ (if e' \<le> i \<and> i < length s then [s ! i] else []) @ replace_scan lit repl s e' ps
         | None \<Rightarrow> (if i < length s then [s ! i] else []) @ replace_scan lit repl s e ps))"

text \<open>
  \<^verbatim>\<open>s.replace(regexp, repl)\<close>, with a replacement text without \<^verbatim>\<open>$\<close>. With the flag
  \<^verbatim>\<open>g\<close> the method sets \<^verbatim>\<open>lastIndex\<close> to 0, replaces every match from the start of the
  string, and leaves \<^verbatim>\<open>lastIndex\<close> at 0. Without the flag it replaces the first match and
  neither reads nor writes \<^verbatim>\<open>lastIndex\<close>.
\<close>

definition String_replace :: "nat \<Rightarrow> jsstring \<Rightarrow> jsstring \<Rightarrow> runtime \<Rightarrow> jsstring \<times> runtime" where
  "String_replace a repl s rt =
     (let R = regexps rt ! a in
      if re_global R
      then (replace_scan (re_source R) repl s 0 [0 ..< Suc (length s)], set_lastIndex a 0 rt)
      else
        (case first_match (re_source R) s [0 ..< Suc (length s)] of
           None \<Rightarrow> (s, rt)
         | Some (i, e) \<Rightarrow> (take i s @ repl @ drop e s, rt)))"

text \<open>
  The scan of \<^verbatim>\<open>String.prototype.split\<close> with a regular expression, over the positions of
  the string: a match at a position outside the last match closes the current piece
  \<open>cur\<close>, which is kept in reverse, and the end of the string closes the last one.
\<close>

fun split_scan :: "re_literal \<Rightarrow> jsstring \<Rightarrow> nat \<Rightarrow> jsstring \<Rightarrow> nat list \<Rightarrow> jsstring list" where
  "split_scan lit s e cur [] = [rev cur]"
| "split_scan lit s e cur (i # ps) =
     (if i < e then split_scan lit s e cur ps
      else
        (case match_at lit s i of
           Some e' \<Rightarrow> rev cur # split_scan lit s (min e' (length s)) [] ps
         | None \<Rightarrow> split_scan lit s e (s ! i # cur) ps))"

text \<open>\<^verbatim>\<open>s.split(regexp)\<close>: the method works on a copy that it makes of the object, so the
  object itself is neither read at \<^verbatim>\<open>lastIndex\<close> nor written.\<close>

definition String_split :: "nat \<Rightarrow> jsstring \<Rightarrow> runtime \<Rightarrow> jsstring list \<times> runtime" where
  "String_split a s rt =
     (split_scan (re_source (regexps rt ! a)) s 0 [] [0 ..< length s], rt)"

text \<open>\<^verbatim>\<open>Array.prototype.filter\<close> with a callback that works on the state.\<close>

fun filter_run ::
  "('a \<Rightarrow> runtime \<Rightarrow> bool \<times> runtime) \<Rightarrow> 'a list \<Rightarrow> runtime \<Rightarrow> 'a list \<times> runtime"
where
  "filter_run f [] rt = ([], rt)"
| "filter_run f (x # xs) rt =
     (case f x rt of
        (keep, rt1) \<Rightarrow>
          (case filter_run f xs rt1 of (ys, rt2) \<Rightarrow> (if keep then x # ys else ys, rt2)))"

text \<open>The callback of the filter in \<open>extractTopics\<close>: \<^verbatim>\<open>&&\<close> evaluates the regular
  expression literal, and with it creates the object, only when the two conditions before
  it hold.\<close>

definition keepWord_run :: "jsstring \<Rightarrow> runtime \<Rightarrow> bool \<times> runtime" where
  "keepWord_run word rt =
     (if length word > 2 \<and> word \<notin> set commonWords
      then (case new_RegExp TopicLetters False rt of (re, rt1) \<Rightarrow> RegExp_test re word rt1)
      else (False, rt))"

text \<open>\<open>extractTopics\<close>, statement by statement; the \<^verbatim>\<open>Set\<close> and the \<^verbatim>\<open>Map\<close> are created by
  the call and are not reachable after it.\<close>

definition extractTopics_run :: "jsstring \<Rightarrow> runtime \<Rightarrow> jsstring list \<times> runtime" where
  "extractTopics_run userText rt =
     (case new_RegExp NonWordNonSpace True rt of (re1, rt1) \<Rightarrow>
      case String_replace re1 [32] userText rt1 of (s1, rt2) \<Rightarrow>
      case new_RegExp Digits True rt2 of (re2, rt3) \<Rightarrow>
      case String_replace re2 [] s1 rt3 of (s2, rt4) \<Rightarrow>
      case new_RegExp WhiteSpaces False rt4 of (re3, rt5) \<Rightarrow>
      case String_split re3 s2 rt5 of (parts, rt6) \<Rightarrow>
      case filter_run keepWord_run (map (\<lambda>word. trim (toLowerCase word)) parts) rt6 of
        (ws, rt7) \<Rightarrow> (map fst (take 8 (sortByFrequency (wordCount ws))), rt7))"

text \<open>\<open>generateConversationTitle\<close>; \<open>createTitleFromTopics\<close> uses no regular expression
  and touches no object but its own arrays.\<close>

definition generateConversationTitle_run :: "chat_message list \<Rightarrow> runtime \<Rightarrow> jsstring \<times> runtime" where
  "generateConversationTitle_run ms rt =
     (let userMessages = filter (\<lambda>msg. role msg = User) ms in
      if length userMessages = 0 then (defaultTitle, rt)
      else
        (let allUserText = toLowerCase (join_sp (map content userMessages)) in
         case extractTopics_run allUserText rt of
           (topics, rt1) \<Rightarrow> (createTitleFromTopics topics allUserText, rt1)))"


section \<open>Properties of the stores\<close>

lemma map_add_twice: "(m ++ p) ++ p = m ++ p"
  by (rule ext) (simp add: map_add_def split: option.splits)

text \<open>
  C3: a configuration update is idempotent. For the class \<^verbatim>\<open>Store\<close>, applying
  \<open>Store_updateConfig\<close> with the partial update \<open>p\<close> twice gives the state and the local
  storage that applying it once gives. For the context store the same holds when the second
  call is made by the render that follows the first one (its closure sees the updated
  state), and when both calls are made by the same render.
\<close>

theorem updateConfig_idempotent:
  "Store_updateConfig stringify p (Store_updateConfig stringify p cl)
     = Store_updateConfig stringify p cl \<and>
   updateConfig stringify (fst (updateConfig stringify (fst sl) p sl)) p
       (updateConfig stringify (fst sl) p sl)
     = updateConfig stringify (fst sl) p sl \<and>
   updateConfig stringify st p (updateConfig stringify st p sl) = updateConfig stringify st p sl"
  by (simp add: Store_updateConfig_def updateConfig_def Let_def map_add_twice)


section \<open>Properties of editing a message\<close>




section \<open>Properties of the conversations in the database\<close>

text \<open>
  C10: with no user logged in, \<open>saveConversation\<close>, \<open>updateConversation\<close> and
  \<open>deleteConversation\<close> throw the error \<^verbatim>\<open>No user logged in\<close> and leave the database as it
  is, whatever the hosted services would have done, and \<open>getUserConversations\<close> returns
  the empty list.
\<close>

theorem no_user_no_write:
  "saveConversation None srv c db = (Inl (Error (js ''No user logged in'')), db) \<and>
   updateConversation None srv cid upd db = (Inl (Error (js ''No user logged in'')), db) \<and>
   deleteConversation None srv cid db = (Inl (Error (js ''No user logged in'')), db) \<and>
   getUserConversations None srv db = Inr []"
  by (simp add: saveConversation_def updateConversation_def deleteConversation_def
      getUserConversations_def noUserLoggedIn_def)

text \<open>
  C7: for a logged-in user, the conversations that \<open>getUserConversations\<close> returns all have
  the user's id as owner, they are in descending order of update time, and they are the
  conversations of exactly the documents of that owner.
\<close>

theorem getUserConversations_owner_sorted:
  assumes "getUserConversations (Some u) srv db = Inr cs"
  shows "(\<forall>c \<in> set cs. userId c = user_id u) \<and>
         sorted_wrt (\<lambda>a b. updatedAt a \<ge> updatedAt b) cs \<and>
         set cs = toConversation (now srv) ` {d \<in> set db. data_userId (snd d) = user_id u}"
proof -
  let ?q = "filter (\<lambda>d. data_userId (snd d) = user_id u) db"
  from assms have cs: "cs = sort_key (\<lambda>c. - updatedAt c) (map (toConversation (now srv)) ?q)"
    by (auto simp: getUserConversations_def Let_def split: option.splits)
  have "sorted (map (\<lambda>c. - updatedAt c) cs)"
    unfolding cs by (rule sorted_sort_key)
  then have desc: "sorted_wrt (\<lambda>a b. updatedAt a \<ge> updatedAt b) cs"
    by (simp add: sorted_map)
  have elems: "set cs = toConversation (now srv) ` {d \<in> set db. data_userId (snd d) = user_id u}"
    unfolding cs by auto
  then have "\<forall>c \<in> set cs. userId c = user_id u"
    by (auto simp: toConversation_def)
  with desc elems show ?thesis by blast
qed

theorem getUserConversations_owner_sorted_witness:
  "\<exists>cs. getUserConversations
          (Some \<lparr>user_id = js ''u1'', email = js ''a@b.fr'', firstName = js ''Ada'',
                 lastName = js ''L'', displayName = None, user_createdAt = 5\<rparr>)
          \<lparr>rejects = None, fresh_id = js ''c9'', now = 100, backend_ok = True\<rparr>
          [(js ''c1'', \<lparr>data_userId = js ''u1'', data_title = js ''Un'', data_messages = None,
              data_createdAt = Some 10, data_updatedAt = Some 20, data_config = None\<rparr>),
           (js ''c2'', \<lparr>data_userId = js ''u2'', data_title = js ''Deux'', data_messages = None,
              data_createdAt = Some 11, data_updatedAt = Some 50, data_config = None\<rparr>),
           (js ''c3'', \<lparr>data_userId = js ''u1'', data_title = js ''Trois'', data_messages = None,
              data_createdAt = Some 12, data_updatedAt = Some 30, data_config = None\<rparr>)]
        = Inr cs \<and>
      map conv_id cs = [js ''c3'', js ''c1''] \<and>
      (\<forall>c \<in> set cs. userId c = js ''u1'') \<and>
      sorted_wrt (\<lambda>a b. updatedAt a \<ge> updatedAt b) cs"
proof -
  let ?u = "\<lparr>user_id = js ''u1'', email = js ''a@b.fr'', firstName = js ''Ada'',
             lastName = js ''L'', displayName = None, user_createdAt = 5\<rparr>"
  let ?srv = "\<lparr>rejects = None, fresh_id = js ''c9'', now = 100, backend_ok = True\<rparr>"
  let ?d1 = "(js ''c1'', \<lparr>data_userId = js ''u1'', data_title = js ''Un'', data_messages = None,
              data_createdAt = Some 10, data_updatedAt = Some 20, data_config = None\<rparr>)"
  let ?d2 = "(js ''c2'', \<lparr>data_userId = js ''u2'', data_title = js ''Deux'', data_messages = None,
              data_createdAt = Some 11, data_updatedAt = Some 50, data_config = None\<rparr>)"
  let ?d3 = "(js ''c3'', \<lparr>data_userId = js ''u1'', data_title = js ''Trois'', data_messages = None,
              data_createdAt = Some 12, data_updatedAt = Some 30, data_config = None\<rparr>)"
  have run: "getUserConversations (Some ?u) ?srv [?d1, ?d2, ?d3]
               = Inr [toConversation 100 ?d3, toConversation 100 ?d1]"
    by (simp add: getUserConversations_def Let_def js_def toConversation_def)
  from getUserConversations_owner_sorted [OF run]
  have "(\<forall>c \<in> set [toConversation 100 ?d3, toConversation 100 ?d1]. userId c = user_id ?u) \<and>
        sorted_wrt (\<lambda>a b. updatedAt a \<ge> updatedAt b) [toConversation 100 ?d3, toConversation 100 ?d1]"
    by blast
  with run show ?thesis
    by (intro exI [of _ "[toConversation 100 ?d3, toConversation 100 ?d1]"])
       (simp add: toConversation_def)
qed


section \<open>Properties of deleting a conversation and of failures\<close>

text \<open>
  C4: when the user confirms and \<open>deleteConversation\<close> succeeds, the conversation list of
  the component is the former list without the conversations of the given id, and if the
  deleted conversation was the active one, the message list of the store is empty and the
  active conversation id is null.
\<close>

theorem handleDeleteConversation_success:
  assumes "fst (deleteConversation (auth_user st) srv cid (database st)) = Inr ()"
  shows "conversations (handleDeleteConversation True srv cid st)
           = filter (\<lambda>conv. conv_id conv \<noteq> cid) (conversations st) \<and>
         (\<forall>conv \<in> set (conversations (handleDeleteConversation True srv cid st)).
            conv_id conv \<noteq> cid) \<and>
         (currentConversationId (list_store st) = Some cid \<longrightarrow>
            messages (list_store (handleDeleteConversation True srv cid st)) = [] \<and>
            currentConversationId (list_store (handleDeleteConversation True srv cid st)) = None)"
  using assms
  by (cases "deleteConversation (auth_user st) srv cid (database st)")
     (auto simp: handleDeleteConversation_def Let_def clearMessages_def
        setCurrentConversationId_def)

theorem handleDeleteConversation_success_witness:
  "fst (deleteConversation
          (Some \<lparr>user_id = js ''u1'', email = js ''a@b.fr'', firstName = js ''Ada'',
                 lastName = js ''L'', displayName = None, user_createdAt = 5\<rparr>)
          \<lparr>rejects = None, fresh_id = js ''c9'', now = 100, backend_ok = True\<rparr>
          (js ''c1'')
          [(js ''c1'', \<lparr>data_userId = js ''u1'', data_title = js ''Un'', data_messages = None,
              data_createdAt = Some 10, data_updatedAt = Some 20, data_config = None\<rparr>)])
     = Inr () \<and>
   (let st' = handleDeleteConversation True
        \<lparr>rejects = None, fresh_id = js ''c9'', now = 100, backend_ok = True\<rparr>
        (js ''c1'')
        \<lparr>auth_user = Some \<lparr>user_id = js ''u1'', email = js ''a@b.fr'', firstName = js ''Ada'',
                 lastName = js ''L'', displayName = None, user_createdAt = 5\<rparr>,
         database = [(js ''c1'', \<lparr>data_userId = js ''u1'', data_title = js ''Un'',
              data_messages = None, data_createdAt = Some 10, data_updatedAt = Some 20,
              data_config = None\<rparr>)],
         list_store = (defaultState (js ''key'') (js ''url''))
           \<lparr>messages := [plainMessage User (js ''bonjour'')],
            currentConversationId := Some (js ''c1'')\<rparr>,
         conversations =
           [\<lparr>conv_id = js ''c1'', userId = js ''u1'', title = js ''Un'', conv_messages = [],
             createdAt = 10, updatedAt = 20, conv_config = None\<rparr>,
            \<lparr>conv_id = js ''c2'', userId = js ''u1'', title = js ''Deux'', conv_messages = [],
             createdAt = 11, updatedAt = 12, conv_config = None\<rparr>],
         deletingId = None, menuOpenId = Some (js ''c1''), list_toasts = []\<rparr>
    in map conv_id (conversations st') = [js ''c2''] \<and>
       messages (list_store st') = [] \<and>
       currentConversationId (list_store st') = None \<and>
       database st' = [])"
proof -
  let ?u = "\<lparr>user_id = js ''u1'', email = js ''a@b.fr'', firstName = js ''Ada'',
             lastName = js ''L'', displayName = None, user_createdAt = 5\<rparr>"
  let ?srv = "\<lparr>rejects = None, fresh_id = js ''c9'', now = 100, backend_ok = True\<rparr>"
  let ?db = "[(js ''c1'', \<lparr>data_userId = js ''u1'', data_title = js ''Un'',
              data_messages = None, data_createdAt = Some 10, data_updatedAt = Some 20,
              data_config = None\<rparr>)]"
  let ?st = "\<lparr>auth_user = Some ?u, database = ?db,
         list_store = (defaultState (js ''key'') (js ''url''))
           \<lparr>messages := [plainMessage User (js ''bonjour'')],
            currentConversationId := Some (js ''c1'')\<rparr>,
         conversations =
           [\<lparr>conv_id = js ''c1'', userId = js ''u1'', title = js ''Un'', conv_messages = [],
             createdAt = 10, updatedAt = 20, conv_config = None\<rparr>,
            \<lparr>conv_id = js ''c2'', userId = js ''u1'', title = js ''Deux'', conv_messages = [],
             createdAt = 11, updatedAt = 12, conv_config = None\<rparr>],
         deletingId = None, menuOpenId = Some (js ''c1''), list_toasts = []\<rparr>"
  have ok: "fst (deleteConversation (auth_user ?st) ?srv (js ''c1'') (database ?st)) = Inr ()"
    by (simp add: deleteConversation_def)
  have db: "database (handleDeleteConversation True ?srv (js ''c1'') ?st) = []"
    by (simp add: handleDeleteConversation_def deleteConversation_def Let_def)
  from handleDeleteConversation_success [OF ok] ok db show ?thesis
    by (simp add: Let_def js_def)
qed

text \<open>
  C2, the claim as stated: after a chat submission that fails, the message list is the one
  before the submission. It is not: submitting \<^verbatim>\<open>hi\<close> from the default state, with the
  request rejected, leaves two messages in the list that was empty.
\<close>

theorem handleSubmit_failure_counterexample:
  "messages (input_store (handleSubmit (Rejected None)
       \<lparr>input_store = defaultState (js ''key'') (js ''url''), input_message = js ''hi'',
        input_toasts = []\<rparr>))
     = [plainMessage User (js ''hi''), plainMessage Assistant apologyMessage] \<and>
   messages (input_store (handleSubmit (Rejected None)
       \<lparr>input_store = defaultState (js ''key'') (js ''url''), input_message = js ''hi'',
        input_toasts = []\<rparr>))
     \<noteq> messages (input_store
       \<lparr>input_store = defaultState (js ''key'') (js ''url''), input_message = js ''hi'',
        input_toasts = []\<rparr>)"
  by (simp add: handleSubmit_def Let_def addMessage_def setLoading_def defaultState_def
      trim_def isSpace_def js_def)

text \<open>
  C2, amended: a chat submission that fails is reported by an error notification, and the
  message list is the list before the submission followed by the user's message and an
  apology of the assistant. A deletion that fails is reported by an error notification and
  leaves the conversation list, the active conversation id, the message list and the
  database as they were.
\<close>

theorem failure_reported_and_state:
  "(trim (input_message ci) \<noteq> [] \<and> \<not> isLoading (input_store ci) \<longrightarrow>
      messages (input_store (handleSubmit (Rejected d) ci))
        = messages (input_store ci) @
            [plainMessage User (trim (input_message ci)), plainMessage Assistant apologyMessage] \<and>
      input_toasts (handleSubmit (Rejected d) ci)
        = input_toasts ci @ [ToastError (processErrorMessage (or_else d sendFailedMessage))]) \<and>
   (fst (deleteConversation (auth_user st) srv cid (database st)) = Inl e \<longrightarrow>
      conversations (handleDeleteConversation True srv cid st) = conversations st \<and>
      currentConversationId (list_store (handleDeleteConversation True srv cid st))
        = currentConversationId (list_store st) \<and>
      messages (list_store (handleDeleteConversation True srv cid st)) = messages (list_store st) \<and>
      database (handleDeleteConversation True srv cid st) = database st \<and>
      list_toasts (handleDeleteConversation True srv cid st)
        = list_toasts st @ [ToastError deleteFailedMessage])"
proof -
  have submit: "trim (input_message ci) \<noteq> [] \<and> \<not> isLoading (input_store ci) \<longrightarrow>
      messages (input_store (handleSubmit (Rejected d) ci))
        = messages (input_store ci) @
            [plainMessage User (trim (input_message ci)), plainMessage Assistant apologyMessage] \<and>
      input_toasts (handleSubmit (Rejected d) ci)
        = input_toasts ci @ [ToastError (processErrorMessage (or_else d sendFailedMessage))]"
    by (simp add: handleSubmit_def Let_def addMessage_def setLoading_def)
  have del: "fst (deleteConversation (auth_user st) srv cid (database st)) = Inl e \<longrightarrow>
      conversations (handleDeleteConversation True srv cid st) = conversations st \<and>
      currentConversationId (list_store (handleDeleteConversation True srv cid st))
        = currentConversationId (list_store st) \<and>
      messages (list_store (handleDeleteConversation True srv cid st)) = messages (list_store st) \<and>
      database (handleDeleteConversation True srv cid st) = database st \<and>
      list_toasts (handleDeleteConversation True srv cid st)
        = list_toasts st @ [ToastError deleteFailedMessage]"
    by (cases "deleteConversation (auth_user st) srv cid (database st)")
       (auto simp: handleDeleteConversation_def Let_def deleteConversation_def
          split: option.splits if_splits)
  from submit del show ?thesis by blast
qed

theorem failure_reported_and_state_witness:
  "(let ci = \<lparr>input_store =
                (defaultState (js ''key'') (js ''url''))\<lparr>messages := [plainMessage User (js ''un'')]\<rparr>,
              input_message = js '' deux '', input_toasts = []\<rparr>
    in trim (input_message ci) \<noteq> [] \<and> \<not> isLoading (input_store ci) \<and>
       messages (input_store (handleSubmit (Rejected None) ci))
         = [plainMessage User (js ''un''), plainMessage User (js ''deux''),
            plainMessage Assistant apologyMessage] \<and>
       input_toasts (handleSubmit (Rejected None) ci) = [ToastError sendFailedMessage]) \<and>
   (let srv = \<lparr>rejects = Some (js ''unavailable''), fresh_id = js ''c9'', now = 100,
               backend_ok = True\<rparr>;
        st = \<lparr>auth_user = Some \<lparr>user_id = js ''u1'', email = js ''a@b.fr'',
                 firstName = js ''Ada'', lastName = js ''L'', displayName = None,
                 user_createdAt = 5\<rparr>,
         database = [(js ''c1'', \<lparr>data_userId = js ''u1'', data_title = js ''Un'',
              data_messages = None, data_createdAt = Some 10, data_updatedAt = Some 20,
              data_config = None\<rparr>)],
         list_store = (defaultState (js ''key'') (js ''url''))
           \<lparr>messages := [plainMessage User (js ''bonjour'')],
            currentConversationId := Some (js ''c1'')\<rparr>,
         conversations =
           [\<lparr>conv_id = js ''c1'', userId = js ''u1'', title = js ''Un'', conv_messages = [],
             createdAt = 10, updatedAt = 20, conv_config = None\<rparr>],
         deletingId = None, menuOpenId = Some (js ''c1''), list_toasts = []\<rparr>
    in fst (deleteConversation (auth_user st) srv (js ''c1'') (database st))
         = Inl (Rejection (js ''unavailable'')) \<and>
       conversations (handleDeleteConversation True srv (js ''c1'') st) = conversations st \<and>
       currentConversationId (list_store (handleDeleteConversation True srv (js ''c1'') st))
         = Some (js ''c1'') \<and>
       messages (list_store (handleDeleteConversation True srv (js ''c1'') st))
         = [plainMessage User (js ''bonjour'')] \<and>
       list_toasts (handleDeleteConversation True srv (js ''c1'') st)
         = [ToastError deleteFailedMessage])"
proof -
  let ?ci = "\<lparr>input_store =
                (defaultState (js ''key'') (js ''url''))\<lparr>messages := [plainMessage User (js ''un'')]\<rparr>,
              input_message = js '' deux '', input_toasts = []\<rparr>"
  let ?srv = "\<lparr>rejects = Some (js ''unavailable''), fresh_id = js ''c9'', now = 100,
               backend_ok = True\<rparr>"
  let ?st = "\<lparr>auth_user = Some \<lparr>user_id = js ''u1'', email = js ''a@b.fr'',
                 firstName = js ''Ada'', lastName = js ''L'', displayName = None,
                 user_createdAt = 5\<rparr>,
         database = [(js ''c1'', \<lparr>data_userId = js ''u1'', data_title = js ''Un'',
              data_messages = None, data_createdAt = Some 10, data_updatedAt = Some 20,
              data_config = None\<rparr>)],
         list_store = (defaultState (js ''key'') (js ''url''))
           \<lparr>messages := [plainMessage User (js ''bonjour'')],
            currentConversationId := Some (js ''c1'')\<rparr>,
         conversations =
           [\<lparr>conv_id = js ''c1'', userId = js ''u1'', title = js ''Un'', conv_messages = [],
             createdAt = 10, updatedAt = 20, conv_config = None\<rparr>],
         deletingId = None, menuOpenId = Some (js ''c1''), list_toasts = []\<rparr>"
  have t: "trim (input_message ?ci) = js ''deux''"
    by (simp add: trim_def isSpace_def js_def)
  have l: "\<not> isLoading (input_store ?ci)"
    by (simp add: defaultState_def)
  have f: "fst (deleteConversation (auth_user ?st) ?srv (js ''c1'') (database ?st))
             = Inl (Rejection (js ''unavailable''))"
    by (simp add: deleteConversation_def)
  have ne: "js ''deux'' \<noteq> []"
    by (simp add: js_def)
  from failure_reported_and_state
         [of ?ci None ?st ?srv "js ''c1''" "Rejection (js ''unavailable'')"] t l f ne
  show ?thesis
    by (simp add: Let_def defaultState_def processErrorMessage_def sendFailedMessage_def js_def)
qed


section \<open>Properties of the authentication error messages\<close>

lemma authErrorTable_distinct: "distinct (map fst authErrorTable)"
  by (simp add: authErrorTable_def js_def)

lemma authErrorTable_codes_nonempty: "(c, m) \<in> set authErrorTable \<Longrightarrow> c \<noteq> []"
  by (auto simp: authErrorTable_def js_def)

text \<open>
  C6, the claim as stated: for a code that is not in the table the function returns the raw
  message of the error. It does not when that message is empty: for the code
  \<^verbatim>\<open>auth/internal-error\<close> and the empty message it returns the fixed text for an unexpected
  error.
\<close>

theorem getAuthErrorMessage_counterexample:
  "js ''auth/internal-error'' \<notin> fst ` set authErrorTable \<and>
   getAuthErrorMessage \<lparr>err_code = Some (js ''auth/internal-error''), err_message = Some []\<rparr>
     = unexpectedErrorMessage \<and>
   Some (getAuthErrorMessage \<lparr>err_code = Some (js ''auth/internal-error''), err_message = Some []\<rparr>)
     \<noteq> err_message \<lparr>err_code = Some (js ''auth/internal-error''), err_message = Some []\<rparr>"
  by (simp add: getAuthErrorMessage_def authErrorTable_def js_def unexpectedErrorMessage_def)

text \<open>
  C6, amended: for an error whose code is an entry of the table, \<open>getAuthErrorMessage\<close>
  returns the message of that entry; for an error whose code is not in the table, or that
  has no code, it returns the raw message of the error when there is one and it is not
  empty, and the fixed text for an unexpected error otherwise.
\<close>

theorem getAuthErrorMessage_table_or_raw:
  "((c, m) \<in> set authErrorTable \<and> err_code e = Some c \<longrightarrow> getAuthErrorMessage e = m) \<and>
   (or_else (err_code e) [] \<notin> fst ` set authErrorTable \<longrightarrow>
      getAuthErrorMessage e = or_else (err_message e) unexpectedErrorMessage) \<and>
   (or_else (err_code e) [] \<notin> fst ` set authErrorTable \<and> err_message e = Some raw \<and> raw \<noteq> [] \<longrightarrow>
      getAuthErrorMessage e = raw)"
proof -
  have "(c, m) \<in> set authErrorTable \<and> err_code e = Some c \<longrightarrow> getAuthErrorMessage e = m"
    using authErrorTable_codes_nonempty [of c m]
      map_of_is_SomeI [OF authErrorTable_distinct, of c m]
    by (auto simp: getAuthErrorMessage_def Let_def)
  moreover have fallback: "or_else (err_code e) [] \<notin> fst ` set authErrorTable \<longrightarrow>
      getAuthErrorMessage e = or_else (err_message e) unexpectedErrorMessage"
    by (auto simp: getAuthErrorMessage_def Let_def map_of_eq_None_iff [symmetric])
  moreover have "or_else (err_code e) [] \<notin> fst ` set authErrorTable \<and>
      err_message e = Some raw \<and> raw \<noteq> [] \<longrightarrow> getAuthErrorMessage e = raw"
    using fallback by auto
  ultimately show ?thesis by blast
qed

theorem getAuthErrorMessage_table_or_raw_witness:
  "getAuthErrorMessage \<lparr>err_code = Some (js ''auth/wrong-password''),
       err_message = Some (js ''Firebase: Error (auth/wrong-password).'')\<rparr>
     = js ''Le mot de passe est incorrect.'' \<and>
   getAuthErrorMessage \<lparr>err_code = Some (js ''auth/internal-error''),
       err_message = Some (js ''Firebase: Error (auth/internal-error).'')\<rparr>
     = js ''Firebase: Error (auth/internal-error).'' \<and>
   getAuthErrorMessage \<lparr>err_code = None, err_message = None\<rparr> = unexpectedErrorMessage"
proof -
  have in_table: "(js ''auth/wrong-password'', js ''Le mot de passe est incorrect.'')
      \<in> set authErrorTable"
    by (simp add: authErrorTable_def js_def)
  have not_in_table: "js ''auth/internal-error'' \<notin> fst ` set authErrorTable"
    by (simp add: authErrorTable_def js_def)
  have no_code: "[] \<notin> fst ` set authErrorTable"
    by (simp add: authErrorTable_def js_def)
  have ne: "js ''auth/internal-error'' \<noteq> []" "js ''Firebase: Error (auth/internal-error).'' \<noteq> []"
    by (simp_all add: js_def)
  from getAuthErrorMessage_table_or_raw
         [of "js ''auth/wrong-password''" "js ''Le mot de passe est incorrect.''"
             "\<lparr>err_code = Some (js ''auth/wrong-password''),
               err_message = Some (js ''Firebase: Error (auth/wrong-password).'')\<rparr>"]
       getAuthErrorMessage_table_or_raw
         [of _ _ "\<lparr>err_code = Some (js ''auth/internal-error''),
               err_message = Some (js ''Firebase: Error (auth/internal-error).'')\<rparr>"
             "js ''Firebase: Error (auth/internal-error).''"]
       getAuthErrorMessage_table_or_raw [of _ _ "\<lparr>err_code = None, err_message = None\<rparr>"]
       in_table not_in_table no_code ne
  show ?thesis by simp
qed

section \<open>Properties of the title heuristic\<close>

subsection \<open>The frequency table\<close>

lemma wordCount_snoc: "wordCount (ws @ [w]) = countWord w (wordCount ws)"
  by (simp add: wordCount_def)

lemma countWord_map_fst:
  "map fst (countWord w m) = (if w \<in> set (map fst m) then map fst m else map fst m @ [w])"
proof (induction m)
  case Nil
  show ?case by simp
next
  case (Cons e m)
  obtain k n where e: "e = (k, n)" by (cases e)
  show ?case
  proof (cases "k = w")
    case True
    then show ?thesis by (simp add: e)
  next
    case False
    with Cons.IH show ?thesis by (simp add: e)
  qed
qed

lemma countWord_keys: "fst ` set (countWord w m) = insert w (fst ` set m)"
proof -
  have "set (map fst (countWord w m)) = insert w (set (map fst m))"
    unfolding countWord_map_fst by auto
  then show ?thesis by simp
qed

lemma countWord_distinct: "distinct (map fst m) \<Longrightarrow> distinct (map fst (countWord w m))"
proof (induction m)
  case Nil
  show ?case by simp
next
  case (Cons e m)
  obtain k n where e: "e = (k, n)" by (cases e)
  from Cons.prems have k: "k \<notin> fst ` set m" and d: "distinct (map fst m)"
    by (auto simp: e)
  show ?case
  proof (cases "k = w")
    case True
    with Cons.prems show ?thesis by (simp add: e)
  next
    case False
    with k have "k \<notin> fst ` set (countWord w m)"
      by (simp add: countWord_keys)
    with False Cons.IH [OF d] show ?thesis by (simp add: e)
  qed
qed

lemma map_of_countWord:
  "map_of (countWord w m) = (map_of m)(w \<mapsto> (case map_of m w of None \<Rightarrow> 1 | Some n \<Rightarrow> n + 1))"
  by (induction m) (auto simp: fun_eq_iff)

lemma wordCount_distinct: "distinct (map fst (wordCount ws))"
proof (induction ws rule: rev_induct)
  case Nil
  show ?case by (simp add: wordCount_def)
next
  case (snoc w ws)
  then show ?case by (simp add: wordCount_snoc countWord_distinct)
qed

lemma map_of_wordCount:
  "map_of (wordCount ws) v = (if v \<in> set ws then Some (count_list ws v) else None)"
proof (induction ws arbitrary: v rule: rev_induct)
  case Nil
  show ?case by (simp add: wordCount_def)
next
  case (snoc w ws)
  show ?case
    by (simp add: wordCount_snoc map_of_countWord snoc.IH)
qed

lemma wordCount_entry:
  "(v, n) \<in> set (wordCount ws) \<longleftrightarrow> v \<in> set ws \<and> n = count_list ws v"
proof -
  have "(v, n) \<in> set (wordCount ws) \<longleftrightarrow> map_of (wordCount ws) v = Some n"
    using wordCount_distinct [of ws] by simp
  then show ?thesis by (auto simp: map_of_wordCount)
qed

subsection \<open>The topics\<close>

lemma sortByFrequency_set: "set (sortByFrequency es) = set es"
  by (simp add: sortByFrequency_def)

lemma sortByFrequency_sorted:
  "sorted_wrt (\<lambda>a b. snd b \<le> snd a) (sortByFrequency es)"
proof -
  have "sorted (map (\<lambda>e. - int (snd e)) (sortByFrequency es))"
    unfolding sortByFrequency_def by (rule sorted_sort_key)
  then show ?thesis by (simp add: sorted_map)
qed

lemma sortByFrequency_distinct_keys:
  "distinct (map fst es) \<Longrightarrow> distinct (map fst (sortByFrequency es))"
  by (simp add: distinct_map sortByFrequency_def)

lemma extractTopics_length: "length (extractTopics userText) \<le> 8"
  by (simp add: extractTopics_def)

lemma extractTopics_distinct: "distinct (extractTopics userText)"
proof -
  have "distinct (map fst (sortByFrequency (wordCount (topicWords userText))))"
    by (rule sortByFrequency_distinct_keys) (rule wordCount_distinct)
  then have "distinct (take 8 (map fst (sortByFrequency (wordCount (topicWords userText)))))"
    by (rule distinct_take)
  then show ?thesis by (simp add: extractTopics_def take_map)
qed

lemma extractTopics_subset: "set (extractTopics userText) \<subseteq> set (topicWords userText)"
proof
  fix t assume "t \<in> set (extractTopics userText)"
  then obtain n where "(t, n) \<in> set (take 8 (sortByFrequency (wordCount (topicWords userText))))"
    by (auto simp: extractTopics_def)
  then have "(t, n) \<in> set (wordCount (topicWords userText))"
    using sortByFrequency_set by (metis in_set_takeD)
  then show "t \<in> set (topicWords userText)" by (simp add: wordCount_entry)
qed

lemma extractTopics_keepWord: "t \<in> set (extractTopics userText) \<Longrightarrow> keepWord t"
  using extractTopics_subset [of userText] by (auto simp: topicWords_def)

lemma extractTopics_descending:
  "sorted_wrt (\<lambda>a b. count_list (topicWords userText) b \<le> count_list (topicWords userText) a)
     (extractTopics userText)"
proof -
  let ?ws = "topicWords userText"
  let ?es = "take 8 (sortByFrequency (wordCount ?ws))"
  have "sorted_wrt (\<lambda>a b. snd b \<le> snd a) ?es"
    using sortByFrequency_sorted by (rule sorted_wrt_take)
  moreover have "\<And>e. e \<in> set ?es \<Longrightarrow> snd e = count_list ?ws (fst e)"
  proof -
    fix e assume "e \<in> set ?es"
    then have "e \<in> set (wordCount ?ws)"
      using sortByFrequency_set by (metis in_set_takeD)
    then show "snd e = count_list ?ws (fst e)"
      using wordCount_entry [of "fst e" "snd e" ?ws] by simp
  qed
  ultimately have "sorted_wrt (\<lambda>a b. count_list ?ws (fst b) \<le> count_list ?ws (fst a)) ?es"
    by (auto intro: sorted_wrt_mono_rel [rotated])
  then show ?thesis by (simp add: extractTopics_def sorted_wrt_map)
qed

lemma extractTopics_top:
  assumes w: "w \<in> set (topicWords userText)" and nw: "w \<notin> set (extractTopics userText)"
    and t: "t \<in> set (extractTopics userText)"
  shows "count_list (topicWords userText) w \<le> count_list (topicWords userText) t"
proof -
  let ?ws = "topicWords userText"
  let ?s = "sortByFrequency (wordCount ?ws)"
  have split: "?s = take 8 ?s @ drop 8 ?s" by simp
  have "sorted_wrt (\<lambda>a b. snd b \<le> snd a) (take 8 ?s @ drop 8 ?s)"
    using sortByFrequency_sorted [of "wordCount ?ws"] by simp
  then have order: "\<forall>a \<in> set (take 8 ?s). \<forall>b \<in> set (drop 8 ?s). snd b \<le> snd a"
    unfolding sorted_wrt_append by blast
  from t obtain n where tn: "(t, n) \<in> set (take 8 ?s)"
    by (auto simp: extractTopics_def)
  then have "(t, n) \<in> set (wordCount ?ws)"
    using sortByFrequency_set by (metis in_set_takeD)
  then have n: "n = count_list ?ws t" by (simp add: wordCount_entry)
  from w have "(w, count_list ?ws w) \<in> set ?s"
    by (simp add: sortByFrequency_set wordCount_entry)
  then have "(w, count_list ?ws w) \<in> set (take 8 ?s) \<union> set (drop 8 ?s)"
    by (metis split set_append)
  moreover from nw have "(w, count_list ?ws w) \<notin> set (take 8 ?s)"
    by (force simp: extractTopics_def)
  ultimately have "(w, count_list ?ws w) \<in> set (drop 8 ?s)" by blast
  with order tn have "snd (w, count_list ?ws w) \<le> snd (t, n)" by blast
  with n show ?thesis by simp
qed

subsection \<open>The scan of the patterns\<close>

lemma scanPatterns_first:
  "\<forall>q \<in> set ps. \<not> patternMatches q fullText \<Longrightarrow> patternMatches p fullText \<Longrightarrow>
   scanPatterns (ps @ p # rest) topics fullText = Some (patternTitle p topics)"
  by (induction ps) auto

lemma scanPatterns_none:
  "\<forall>q \<in> set ps. \<not> patternMatches q fullText \<Longrightarrow> scanPatterns ps topics fullText = None"
  by (induction ps) auto

lemma contextWords_props:
  "length (contextWords p topics) \<le> 2 \<and> set (contextWords p topics) \<subseteq> set topics"
  by (auto simp: contextWords_def dest: in_set_takeD)

lemma fallbackTitle_of_topics:
  assumes "\<forall>t \<in> set topics. 2 < length t"
  shows "fallbackTitle topics =
     (if 2 \<le> length topics then take 25 (join_sp (map capitalize (take 3 topics)))
      else if length topics = 1 \<and> 3 < length (hd topics)
      then js ''Discussion '' @ capitalize (hd topics)
      else defaultTitle)"
proof -
  from assms have "filter (\<lambda>topic. 2 < length topic) topics = topics"
    by (simp add: filter_id_conv)
  moreover have "length topics = 1 \<Longrightarrow> topics ! 0 = hd topics"
    by (cases topics) auto
  ultimately show ?thesis
    by (auto simp: fallbackTitle_def Let_def)
qed

lemma wordCount_length: "length (wordCount ws) = card (set ws)"
proof -
  have "set (map fst (wordCount ws)) = set ws"
  proof
    show "set (map fst (wordCount ws)) \<subseteq> set ws"
      by (auto simp: wordCount_entry)
    show "set ws \<subseteq> set (map fst (wordCount ws))"
    proof
      fix v assume "v \<in> set ws"
      then have "(v, count_list ws v) \<in> set (wordCount ws)"
        by (simp add: wordCount_entry)
      then show "v \<in> set (map fst (wordCount ws))" by force
    qed
  qed
  then have "card (set ws) = length (map fst (wordCount ws))"
    using distinct_card [OF wordCount_distinct [of ws]] by simp
  then show ?thesis by simp
qed

lemma extractTopics_count: "length (extractTopics userText) = min 8 (card (set (topicWords userText)))"
  by (simp add: extractTopics_def sortByFrequency_def wordCount_length min.commute)

subsection \<open>Substrings\<close>

lemma str_includes_iff: "str_includes s k \<longleftrightarrow> (\<exists>pre post. s = pre @ k @ post)"
proof (induction s)
  case Nil
  show ?case by auto
next
  case (Cons c cs)
  show ?case
  proof
    assume "str_includes (c # cs) k"
    then consider "take (length k) (c # cs) = k" | "str_includes cs k" by auto
    then show "\<exists>pre post. c # cs = pre @ k @ post"
    proof cases
      case 1
      then have "c # cs = [] @ k @ drop (length k) (c # cs)"
        by (metis append_Nil append_take_drop_id)
      then show ?thesis by blast
    next
      case 2
      with Cons.IH obtain pre post where "cs = pre @ k @ post" by blast
      then have "c # cs = (c # pre) @ k @ post" by simp
      then show ?thesis by blast
    qed
  next
    assume "\<exists>pre post. c # cs = pre @ k @ post"
    then obtain pre post where eq: "c # cs = pre @ k @ post" by blast
    show "str_includes (c # cs) k"
    proof (cases pre)
      case Nil
      with eq have "take (length k) (c # cs) = k" by simp
      then show ?thesis by simp
    next
      case (Cons d pre')
      with eq have "cs = pre' @ k @ post" by simp
      with Cons.IH have "str_includes cs k" by blast
      then show ?thesis by simp
    qed
  qed
qed

lemma patternMatches_iff:
  "patternMatches p fullText \<longleftrightarrow>
     (\<exists>keyword \<in> set (pattern_keywords p). \<exists>pre post. fullText = pre @ keyword @ post)"
  by (simp add: patternMatches_def list_ex_iff str_includes_iff)

subsection \<open>The letters of a topic\<close>

lemma split_ws_chars: "w \<in> set (split_ws s) \<Longrightarrow> set w \<subseteq> set s"
proof (induction s arbitrary: w)
  case Nil
  then show ?case by simp
next
  case (Cons c cs)
  show ?case
  proof (cases "isSpace c")
    case True
    with Cons show ?thesis
      by (cases cs) (auto split: if_splits)
  next
    case False
    show ?thesis
    proof (cases "split_ws cs")
      case Nil
      with False Cons.prems show ?thesis by auto
    next
      case (Cons v vs)
      with False Cons.prems have "w = c # v \<or> w \<in> set vs" by auto
      moreover have "set v \<subseteq> set cs" "\<And>u. u \<in> set vs \<Longrightarrow> set u \<subseteq> set cs"
        using Cons.IH Cons by auto
      ultimately show ?thesis by auto
    qed
  qed
qed

lemma lowerUnit_word_char:
  assumes "isWordChar c \<or> isSpace c" and "\<not> isDigit c" and "d \<in> set (lowerUnit c)"
  shows "(97 \<le> d \<and> d \<le> 122) \<or> d = 95 \<or> isSpace d"
  using assms
  by (auto simp: lowerUnit_def isWordChar_def isAsciiLetter_def isDigit_def isSpace_def
      split: if_splits)

lemma trim_chars: "set (trim w) \<subseteq> set w"
proof -
  have "set (dropWhile isSpace (rev (dropWhile isSpace w))) \<subseteq> set (rev (dropWhile isSpace w))"
    by (auto dest: set_dropWhileD)
  also have "\<dots> \<subseteq> set w"
    by (auto dest: set_dropWhileD)
  finally show ?thesis by (simp add: trim_def)
qed

lemma topicWords_letters:
  assumes "t \<in> set (topicWords userText)" and "d \<in> set t"
  shows "97 \<le> d \<and> d \<le> 122"
proof -
  from assms(1) obtain w
    where w: "w \<in> set (split_ws (removeDigits (replaceNonWord userText)))"
      and t: "t = trim (toLowerCase w)" and keep: "keepWord t"
    by (auto simp: topicWords_def)
  from assms(2) t have "d \<in> set (toLowerCase w)"
    using trim_chars by blast
  then obtain c where c: "c \<in> set w" and d: "d \<in> set (lowerUnit c)"
    by (auto simp: toLowerCase_def)
  from c w have "c \<in> set (removeDigits (replaceNonWord userText))"
    using split_ws_chars by blast
  then have "(isWordChar c \<or> isSpace c) \<and> \<not> isDigit c"
    by (auto simp: removeDigits_def replaceNonWord_def isSpace_def split: if_splits)
  with d have range: "(97 \<le> d \<and> d \<le> 122) \<or> d = 95 \<or> isSpace d"
    using lowerUnit_word_char by blast
  from keep assms(2) have "isTopicLetter d"
    by (simp add: keepWord_def list_all_iff)
  with range show ?thesis
    by (auto simp: isTopicLetter_def isAsciiLetter_def isSpace_def)
qed

subsection \<open>The heuristic as a whole\<close>

lemma topicWords_kept:
  "t \<in> set (topicWords userText) \<Longrightarrow>
     t \<in> set (map (\<lambda>w. trim (toLowerCase w)) (split_ws (removeDigits (replaceNonWord userText)))) \<and>
     t \<notin> set commonWords \<and> list_all isTopicLetter t \<and> 2 < length t"
  by (auto simp: topicWords_def keepWord_def)

lemma createTitleFromTopics_first:
  assumes "patterns = ps @ p # rest" and "\<forall>q \<in> set ps. \<not> patternMatches q fullText"
    and "patternMatches p fullText"
  shows "createTitleFromTopics topics fullText =
     (if contextWords p topics = [] then pattern_title p
      else take 25 (pattern_title p @ 32 # join_sp (map capitalize (contextWords p topics))))"
proof -
  have "scanPatterns patterns topics fullText = Some (patternTitle p topics)"
    unfolding assms(1) using assms(2,3) by (rule scanPatterns_first)
  then show ?thesis
    by (simp add: createTitleFromTopics_def patternTitle_def Let_def)
qed

lemma createTitleFromTopics_fallback:
  assumes "\<forall>q \<in> set patterns. \<not> patternMatches q fullText"
  shows "createTitleFromTopics (extractTopics userText) fullText =
     (if 2 \<le> length (extractTopics userText)
      then take 25 (join_sp (map capitalize (take 3 (extractTopics userText))))
      else if length (extractTopics userText) = 1 \<and> 3 < length (hd (extractTopics userText))
      then js ''Discussion '' @ capitalize (hd (extractTopics userText))
      else defaultTitle)"
proof -
  have "scanPatterns patterns (extractTopics userText) fullText = None"
    using assms by (rule scanPatterns_none)
  moreover have "\<forall>t \<in> set (extractTopics userText). 2 < length t"
    using extractTopics_keepWord by (auto simp: keepWord_def)
  ultimately show ?thesis
    by (simp add: createTitleFromTopics_def fallbackTitle_of_topics)
qed

lemma generateConversationTitle_unfold:
  "generateConversationTitle ms =
     (if filter (\<lambda>msg. role msg = User) ms = [] then defaultTitle
      else createTitleFromTopics
        (extractTopics (toLowerCase (join_sp (map content (filter (\<lambda>msg. role msg = User) ms)))))
        (toLowerCase (join_sp (map content (filter (\<lambda>msg. role msg = User) ms)))))"
  by (simp add: generateConversationTitle_def Let_def)

lemmas title_defs =
  js_def isSpace_def isDigit_def isAsciiLetter_def isWordChar_def lowerUnit_def toLowerCase_def
  upperUnit_def trim_def commonWords_def isTopicLetter_def replaceNonWord_def removeDigits_def
  keepWord_def topicWords_def wordCount_def sortByFrequency_def extractTopics_def

text \<open>
  C5: the title is computed from the lower-cased user messages joined by spaces, and is the
  default label when there is no user message. Every topic is a token of the text that is
  not a stop word and consists of letters only, the letters a to z, more than two of them; the topics
  are distinct, at most eight, as many as there are distinct such tokens up to eight, in
  descending order of frequency, and no token left out is more frequent than a topic. The
  title is that of the first pattern one of whose keywords occurs in the full text, alone or
  followed by at most two of the topics, capitalised, the whole cut at 25 code units. When
  no pattern matches, it is the first three topics, capitalised and joined, cut at 25 code
  units, when there are two topics or more; \<^verbatim>\<open>Discussion\<close> followed by the topic when there
  is one topic of more than three letters; and the default label otherwise.
\<close>

theorem title_heuristic:
  "generateConversationTitle ms =
     (if filter (\<lambda>msg. role msg = User) ms = [] then defaultTitle
      else createTitleFromTopics
        (extractTopics (toLowerCase (join_sp (map content (filter (\<lambda>msg. role msg = User) ms)))))
        (toLowerCase (join_sp (map content (filter (\<lambda>msg. role msg = User) ms))))) \<and>
   (\<forall>t \<in> set (extractTopics userText).
      t \<in> set (map (\<lambda>w. trim (toLowerCase w))
                (split_ws (removeDigits (replaceNonWord userText)))) \<and>
      t \<notin> set commonWords \<and> list_all isTopicLetter t \<and> 2 < length t \<and>
      (\<forall>c \<in> set t. 97 \<le> c \<and> c \<le> 122)) \<and>
   distinct (extractTopics userText) \<and>
   length (extractTopics userText) = min 8 (card (set (topicWords userText))) \<and>
   sorted_wrt (\<lambda>a b. count_list (topicWords userText) b \<le> count_list (topicWords userText) a)
     (extractTopics userText) \<and>
   (\<forall>w \<in> set (topicWords userText). w \<notin> set (extractTopics userText) \<longrightarrow>
      (\<forall>t \<in> set (extractTopics userText).
         count_list (topicWords userText) w \<le> count_list (topicWords userText) t)) \<and>
   (patternMatches p fullText \<longleftrightarrow>
      (\<exists>keyword \<in> set (pattern_keywords p). \<exists>pre post. fullText = pre @ keyword @ post)) \<and>
   (patterns = ps @ p # rest \<and> (\<forall>q \<in> set ps. \<not> patternMatches q fullText) \<and>
    patternMatches p fullText \<longrightarrow>
      createTitleFromTopics topics fullText =
        (if contextWords p topics = [] then pattern_title p
         else take 25 (pattern_title p @ 32 # join_sp (map capitalize (contextWords p topics)))) \<and>
      length (contextWords p topics) \<le> 2 \<and> set (contextWords p topics) \<subseteq> set topics) \<and>
   ((\<forall>q \<in> set patterns. \<not> patternMatches q fullText) \<longrightarrow>
      createTitleFromTopics (extractTopics userText) fullText =
        (if 2 \<le> length (extractTopics userText)
         then take 25 (join_sp (map capitalize (take 3 (extractTopics userText))))
         else if length (extractTopics userText) = 1 \<and> 3 < length (hd (extractTopics userText))
         then js ''Discussion '' @ capitalize (hd (extractTopics userText))
         else defaultTitle))"
proof -
  have tokens: "\<forall>t \<in> set (extractTopics userText).
      t \<in> set (map (\<lambda>w. trim (toLowerCase w))
                (split_ws (removeDigits (replaceNonWord userText)))) \<and>
      t \<notin> set commonWords \<and> list_all isTopicLetter t \<and> 2 < length t \<and>
      (\<forall>c \<in> set t. 97 \<le> c \<and> c \<le> 122)"
    using extractTopics_subset [of userText] topicWords_kept [of _ userText]
      topicWords_letters [of _ userText]
    by blast
  have top: "\<forall>w \<in> set (topicWords userText). w \<notin> set (extractTopics userText) \<longrightarrow>
      (\<forall>t \<in> set (extractTopics userText).
         count_list (topicWords userText) w \<le> count_list (topicWords userText) t)"
    using extractTopics_top by blast
  have first: "patterns = ps @ p # rest \<and> (\<forall>q \<in> set ps. \<not> patternMatches q fullText) \<and>
    patternMatches p fullText \<longrightarrow>
      createTitleFromTopics topics fullText =
        (if contextWords p topics = [] then pattern_title p
         else take 25 (pattern_title p @ 32 # join_sp (map capitalize (contextWords p topics)))) \<and>
      length (contextWords p topics) \<le> 2 \<and> set (contextWords p topics) \<subseteq> set topics"
    using createTitleFromTopics_first [of ps p rest fullText topics] contextWords_props [of p topics]
    by blast
  have fallback: "(\<forall>q \<in> set patterns. \<not> patternMatches q fullText) \<longrightarrow>
      createTitleFromTopics (extractTopics userText) fullText =
        (if 2 \<le> length (extractTopics userText)
         then take 25 (join_sp (map capitalize (take 3 (extractTopics userText))))
         else if length (extractTopics userText) = 1 \<and> 3 < length (hd (extractTopics userText))
         then js ''Discussion '' @ capitalize (hd (extractTopics userText))
         else defaultTitle)"
    using createTitleFromTopics_fallback by blast
  show ?thesis
    by (intro conjI generateConversationTitle_unfold tokens extractTopics_distinct
        extractTopics_count extractTopics_descending top patternMatches_iff first fallback)
qed

theorem title_heuristic_witness:
  "generateConversationTitle [plainMessage User (js ''Comment installer Python sur Windows'')]
     = js ''Code Installer Windows'' \<and>
   extractTopics (js ''comment installer python sur windows'')
     = [js ''installer'', js ''python'', js ''windows''] \<and>
   generateConversationTitle [plainMessage User (js ''Bonjour tout le monde'')]
     = js ''Bonjour Tout Monde'' \<and>
   generateConversationTitle [plainMessage User (js ''Et vous ?'')]
     = js ''Nouvelle Conversation''"
proof -
  let ?t1 = "js ''comment installer python sur windows''"
  let ?t2 = "js ''bonjour tout le monde''"
  let ?ms1 = "[plainMessage User (js ''Comment installer Python sur Windows'')]"
  let ?ms2 = "[plainMessage User (js ''Bonjour tout le monde'')]"
  let ?t3 = "js ''et vous ?''"
  let ?ms3 = "[plainMessage User (js ''Et vous ?'')]"
  let ?p = "\<lparr>pattern_keywords = [js ''python'', js ''javascript'', js ''java'', js ''cpp'',
              js ''c++'', js ''rust'', js ''go''],
            pattern_title = js ''Code''\<rparr>"
  have low1: "toLowerCase (join_sp (map content (filter (\<lambda>msg. role msg = User) ?ms1))) = ?t1"
    by (simp add: plainMessage_def toLowerCase_def lowerUnit_def js_def)
  have low2: "toLowerCase (join_sp (map content (filter (\<lambda>msg. role msg = User) ?ms2))) = ?t2"
    by (simp add: plainMessage_def toLowerCase_def lowerUnit_def js_def)
  have low3: "toLowerCase (join_sp (map content (filter (\<lambda>msg. role msg = User) ?ms3))) = ?t3"
    by (simp add: plainMessage_def toLowerCase_def lowerUnit_def js_def)
  have user3: "filter (\<lambda>msg. role msg = User) ?ms3 \<noteq> []"
    by (simp add: plainMessage_def)
  have topics3: "extractTopics ?t3 = []"
    by (simp add: title_defs)
  have none3: "\<forall>q \<in> set patterns. \<not> patternMatches q ?t3"
    by (simp add: patterns_def patternMatches_def js_def)
  have user1: "filter (\<lambda>msg. role msg = User) ?ms1 \<noteq> []"
    by (simp add: plainMessage_def)
  have user2: "filter (\<lambda>msg. role msg = User) ?ms2 \<noteq> []"
    by (simp add: plainMessage_def)
  have topics1: "extractTopics ?t1 = [js ''installer'', js ''python'', js ''windows'']"
    by (simp add: title_defs)
  have topics2: "extractTopics ?t2 = [js ''bonjour'', js ''tout'', js ''monde'']"
    by (simp add: title_defs)
  have split: "patterns = take 7 patterns @ ?p # drop 8 patterns"
    by (simp add: patterns_def)
  have before: "\<forall>q \<in> set (take 7 patterns). \<not> patternMatches q ?t1"
    by (simp add: patterns_def patternMatches_def js_def)
  have match: "patternMatches ?p ?t1"
    by (simp add: patternMatches_def js_def)
  have none: "\<forall>q \<in> set patterns. \<not> patternMatches q ?t2"
    by (simp add: patterns_def patternMatches_def js_def)
  have ctx: "contextWords ?p [js ''installer'', js ''python'', js ''windows'']
      = [js ''installer'', js ''windows'']"
    by (simp add: contextWords_def js_def)
  have first: "createTitleFromTopics (extractTopics ?t1) ?t1 =
        (if contextWords ?p (extractTopics ?t1) = [] then pattern_title ?p
         else take 25 (pattern_title ?p @ 32 #
                join_sp (map capitalize (contextWords ?p (extractTopics ?t1)))))"
    using title_heuristic
      [where ps = "take 7 patterns" and p = ?p and rest = "drop 8 patterns"
         and fullText = ?t1 and topics = "extractTopics ?t1",
       THEN conjunct2, THEN conjunct2, THEN conjunct2, THEN conjunct2, THEN conjunct2,
       THEN conjunct2, THEN conjunct2, THEN conjunct1]
      split before match
    by blast
  have "(if contextWords ?p (extractTopics ?t1) = [] then pattern_title ?p
         else take 25 (pattern_title ?p @ 32 #
                join_sp (map capitalize (contextWords ?p (extractTopics ?t1)))))
      = js ''Code Installer Windows''"
    unfolding topics1 ctx by (simp add: js_def upperUnit_def)
  with first have title1:
    "createTitleFromTopics (extractTopics ?t1) ?t1 = js ''Code Installer Windows''"
    by (rule trans)
  have fallback: "createTitleFromTopics (extractTopics ?t2) ?t2 =
        (if 2 \<le> length (extractTopics ?t2)
         then take 25 (join_sp (map capitalize (take 3 (extractTopics ?t2))))
         else if length (extractTopics ?t2) = 1 \<and> 3 < length (hd (extractTopics ?t2))
         then js ''Discussion '' @ capitalize (hd (extractTopics ?t2))
         else defaultTitle)"
    using title_heuristic
      [where userText = ?t2 and fullText = ?t2,
       THEN conjunct2, THEN conjunct2, THEN conjunct2, THEN conjunct2, THEN conjunct2,
       THEN conjunct2, THEN conjunct2, THEN conjunct2]
      none
    by blast
  have "(if 2 \<le> length (extractTopics ?t2)
         then take 25 (join_sp (map capitalize (take 3 (extractTopics ?t2))))
         else if length (extractTopics ?t2) = 1 \<and> 3 < length (hd (extractTopics ?t2))
         then js ''Discussion '' @ capitalize (hd (extractTopics ?t2))
         else defaultTitle)
      = js ''Bonjour Tout Monde''"
    unfolding topics2 by (simp add: js_def upperUnit_def)
  with fallback have title2:
    "createTitleFromTopics (extractTopics ?t2) ?t2 = js ''Bonjour Tout Monde''"
    by (rule trans)
  have default: "createTitleFromTopics (extractTopics ?t3) ?t3 =
        (if 2 \<le> length (extractTopics ?t3)
         then take 25 (join_sp (map capitalize (take 3 (extractTopics ?t3))))
         else if length (extractTopics ?t3) = 1 \<and> 3 < length (hd (extractTopics ?t3))
         then js ''Discussion '' @ capitalize (hd (extractTopics ?t3))
         else defaultTitle)"
    using title_heuristic
      [where userText = ?t3 and fullText = ?t3,
       THEN conjunct2, THEN conjunct2, THEN conjunct2, THEN conjunct2, THEN conjunct2,
       THEN conjunct2, THEN conjunct2, THEN conjunct2]
      none3
    by blast
  have "(if 2 \<le> length (extractTopics ?t3)
         then take 25 (join_sp (map capitalize (take 3 (extractTopics ?t3))))
         else if length (extractTopics ?t3) = 1 \<and> 3 < length (hd (extractTopics ?t3))
         then js ''Discussion '' @ capitalize (hd (extractTopics ?t3))
         else defaultTitle)
      = js ''Nouvelle Conversation''"
    unfolding topics3 by (simp add: defaultTitle_def)
  with default have title3:
    "createTitleFromTopics (extractTopics ?t3) ?t3 = js ''Nouvelle Conversation''"
    by (rule trans)
  have "generateConversationTitle ?ms1 = js ''Code Installer Windows''"
    using title_heuristic [where ms = ?ms1, THEN conjunct1] user1
    by (simp only: low1 title1 if_False)
  moreover have "generateConversationTitle ?ms2 = js ''Bonjour Tout Monde''"
    using title_heuristic [where ms = ?ms2, THEN conjunct1] user2
    by (simp only: low2 title2 if_False)
  moreover have "generateConversationTitle ?ms3 = js ''Nouvelle Conversation''"
    using title_heuristic [where ms = ?ms3, THEN conjunct1] user3
    by (simp only: low3 title3 if_False)
  ultimately show ?thesis using topics1 by simp
qed

subsection \<open>Length of a title\<close>

lemma scanPatterns_Some:
  "scanPatterns ps topics fullText = Some r \<Longrightarrow> \<exists>p \<in> set ps. r = patternTitle p topics"
  by (induction ps) (auto split: if_splits)

lemma pattern_titles: "\<forall>p \<in> set patterns. pattern_title p \<noteq> [] \<and> length (pattern_title p) \<le> 25"
  by (simp add: patterns_def js_def)

lemma patternTitle_bounds:
  assumes "p \<in> set patterns"
  shows "patternTitle p topics \<noteq> [] \<and> length (patternTitle p topics) \<le> 25"
proof -
  from assms pattern_titles
  have "pattern_title p \<noteq> []" and "length (pattern_title p) \<le> 25" by auto
  then show ?thesis by (auto simp: patternTitle_def Let_def)
qed

lemma capitalize_nonempty: "w \<noteq> [] \<Longrightarrow> capitalize w \<noteq> []"
  by (cases w) (auto simp: upperUnit_def)

lemma join_sp_nonempty: "ws \<noteq> [] \<Longrightarrow> hd ws \<noteq> [] \<Longrightarrow> join_sp ws \<noteq> []"
  by (induction ws rule: join_sp.induct) auto

lemma fallbackTitle_bounds:
  "fallbackTitle topics \<noteq> [] \<and>
   (length (fallbackTitle topics) \<le> 25 \<or>
    (\<exists>t. topics = [t] \<and> fallbackTitle topics = js ''Discussion '' @ capitalize t))"
proof (cases "2 \<le> length topics")
  case True
  let ?kept = "take 3 (filter (\<lambda>topic. 2 < length topic) topics)"
  show ?thesis
  proof (cases "?kept = []")
    case True
    with \<open>2 \<le> length topics\<close> show ?thesis
      by (simp add: fallbackTitle_def Let_def defaultTitle_def js_def)
  next
    case False
    then have "hd ?kept \<in> set (filter (\<lambda>topic. 2 < length topic) topics)"
      by (metis hd_in_set in_set_takeD)
    then have "hd ?kept \<noteq> []" by auto
    with False have "hd (map capitalize ?kept) \<noteq> []"
      by (simp add: hd_map capitalize_nonempty)
    with False have "join_sp (map capitalize ?kept) \<noteq> []"
      by (intro join_sp_nonempty) simp_all
    with False \<open>2 \<le> length topics\<close> show ?thesis
      by (simp add: fallbackTitle_def Let_def)
  qed
next
  case False
  show ?thesis
  proof (cases "length topics = 1 \<and> 3 < length (topics ! 0)")
    case True
    then obtain t where "topics = [t]"
      by (cases topics) auto
    with True show ?thesis
      by (simp add: fallbackTitle_def js_def)
  next
    case no: False
    with False show ?thesis
      by (auto simp: fallbackTitle_def defaultTitle_def js_def)
  qed
qed

lemma generateConversationTitle_bounds:
  "generateConversationTitle ms \<noteq> [] \<and>
   (length (generateConversationTitle ms) \<le> 25 \<or>
    (\<exists>t. generateConversationTitle ms = js ''Discussion '' @ capitalize t))"
proof (cases "filter (\<lambda>msg. role msg = User) ms = []")
  case True
  then show ?thesis
    by (simp add: generateConversationTitle_unfold defaultTitle_def js_def)
next
  case False
  let ?t = "toLowerCase (join_sp (map content (filter (\<lambda>msg. role msg = User) ms)))"
  show ?thesis
  proof (cases "scanPatterns patterns (extractTopics ?t) ?t")
    case None
    with False have "generateConversationTitle ms = fallbackTitle (extractTopics ?t)"
      by (simp add: generateConversationTitle_unfold createTitleFromTopics_def)
    with fallbackTitle_bounds [of "extractTopics ?t"] show ?thesis by auto
  next
    case (Some r)
    with False have "generateConversationTitle ms = r"
      by (simp add: generateConversationTitle_unfold createTitleFromTopics_def)
    moreover from Some obtain p where "p \<in> set patterns" "r = patternTitle p (extractTopics ?t)"
      using scanPatterns_Some by blast
    ultimately show ?thesis using patternTitle_bounds by auto
  qed
qed

subsection \<open>A single long word\<close>

lemma replicate_z_numeral:
  "replicate (numeral k) (122::nat) = 122 # replicate (pred_numeral k) 122"
  by (simp add: numeral_eq_Suc)

lemma concat_replicate_single: "concat (replicate n [x]) = replicate n x"
  by (induction n) auto

lemma toLowerCase_replicate_z: "toLowerCase (replicate n 122) = replicate n 122"
  by (simp add: toLowerCase_def lowerUnit_def concat_replicate_single)

lemma split_ws_replicate_z: "split_ws (replicate n 122) = [replicate n 122]"
  by (induction n) (auto simp: isSpace_def)

lemma trim_replicate_z: "trim (replicate n 122) = replicate n 122"
proof -
  have "dropWhile isSpace (replicate n 122) = replicate n 122"
    by (cases n) (simp_all add: isSpace_def)
  then show ?thesis by (simp add: trim_def)
qed

lemma commonWords_not_z: "\<forall>w \<in> set commonWords. \<exists>c \<in> set w. c \<noteq> 122"
  by (simp add: commonWords_def js_def)

lemma keywords_not_z:
  "\<forall>q \<in> set patterns. \<forall>keyword \<in> set (pattern_keywords q). \<exists>c \<in> set keyword. c \<noteq> 122"
  by (simp add: patterns_def js_def)

lemma extractTopics_replicate_z:
  assumes "3 \<le> n"
  shows "extractTopics (replicate n 122) = [replicate n 122]"
proof -
  have "replicate n 122 \<notin> set commonWords"
    using commonWords_not_z by fastforce
  with assms have "keepWord (replicate n 122)"
    by (auto simp: keepWord_def isTopicLetter_def isAsciiLetter_def list_all_iff)
  then have "topicWords (replicate n 122) = [replicate n 122]"
    by (simp add: topicWords_def replaceNonWord_def removeDigits_def isWordChar_def
        isAsciiLetter_def isDigit_def split_ws_replicate_z toLowerCase_replicate_z
        trim_replicate_z)
  then show ?thesis
    by (simp add: extractTopics_def wordCount_def sortByFrequency_def)
qed

lemma patterns_replicate_z: "\<forall>q \<in> set patterns. \<not> patternMatches q (replicate n 122)"
proof (intro ballI notI)
  fix q assume q: "q \<in> set patterns" and "patternMatches q (replicate n 122)"
  then obtain keyword pre post
    where k: "keyword \<in> set (pattern_keywords q)" and "replicate n 122 = pre @ keyword @ post"
    by (auto simp: patternMatches_iff)
  then have "set keyword \<subseteq> set (replicate n 122)"
    by (metis Un_upper1 Un_upper2 set_append subset_trans)
  then have "\<forall>c \<in> set keyword. c = 122" by auto
  with keywords_not_z q k show False by blast
qed

text \<open>
  C1: the title of a conversation whose only message is one word of \<open>n\<close> letters \<^verbatim>\<open>z\<close>,
  with \<open>n\<close> at least four, is \<^verbatim>\<open>Discussion Z\<close> followed by the other \<open>n - 1\<close> letters. It
  is not cut at 25 code units as the titles of the other branches are: its length is
  \<open>n + 11\<close>, so the length of a title has no bound.
\<close>

theorem generateConversationTitle_single_word:
  assumes "4 \<le> n"
  shows "generateConversationTitle [plainMessage User (replicate n 122)]
           = js ''Discussion Z'' @ replicate (n - 1) 122 \<and>
         length (generateConversationTitle [plainMessage User (replicate n 122)]) = n + 11"
proof -
  let ?w = "replicate n 122"
  from assms have topics: "extractTopics ?w = [?w]"
    by (simp add: extractTopics_replicate_z)
  from assms obtain m where n: "n = Suc m" by (cases n) auto
  have "createTitleFromTopics (extractTopics ?w) ?w = js ''Discussion '' @ capitalize ?w"
    using createTitleFromTopics_fallback [OF patterns_replicate_z [of n], where userText = ?w]
      assms
    by (simp add: topics)
  also have "\<dots> = js ''Discussion Z'' @ replicate (n - 1) 122"
    by (simp add: n js_def upperUnit_def)
  finally have "generateConversationTitle [plainMessage User ?w]
      = js ''Discussion Z'' @ replicate (n - 1) 122"
    by (simp add: generateConversationTitle_unfold plainMessage_def toLowerCase_replicate_z)
  moreover have "length (js ''Discussion Z'' @ replicate (n - 1) 122) = n + 11"
    using assms by (simp add: js_def)
  ultimately show ?thesis by simp
qed

theorem generateConversationTitle_single_word_witness:
  "generateConversationTitle [plainMessage User (js ''zzzzzzzzzzzzzzzzzzzzzzzzzzzzzz'')]
     = js ''Discussion Zzzzzzzzzzzzzzzzzzzzzzzzzzzzzz'' \<and>
   length (generateConversationTitle [plainMessage User (js ''zzzzzzzzzzzzzzzzzzzzzzzzzzzzzz'')])
     = 41 \<and>
   25 < length (generateConversationTitle
          [plainMessage User (js ''zzzzzzzzzzzzzzzzzzzzzzzzzzzzzz'')])"
proof -
  have w: "js ''zzzzzzzzzzzzzzzzzzzzzzzzzzzzzz'' = replicate 30 122"
    by (simp add: js_def replicate_z_numeral)
  have t: "js ''Discussion Zzzzzzzzzzzzzzzzzzzzzzzzzzzzzz'' = js ''Discussion Z'' @ replicate (30 - 1) 122"
    by (simp add: js_def replicate_z_numeral)
  have "(4::nat) \<le> 30" by simp
  note run = generateConversationTitle_single_word [OF this]
  have title:
    "generateConversationTitle [plainMessage User (js ''zzzzzzzzzzzzzzzzzzzzzzzzzzzzzz'')]
       = js ''Discussion Zzzzzzzzzzzzzzzzzzzzzzzzzzzzzz''"
    unfolding w t by (rule run [THEN conjunct1])
  have len:
    "length (generateConversationTitle [plainMessage User (js ''zzzzzzzzzzzzzzzzzzzzzzzzzzzzzz'')])
       = 41"
    unfolding w using run [THEN conjunct2] by simp
  show ?thesis
  proof (intro conjI)
    show "generateConversationTitle [plainMessage User (js ''zzzzzzzzzzzzzzzzzzzzzzzzzzzzzz'')]
       = js ''Discussion Zzzzzzzzzzzzzzzzzzzzzzzzzzzzzz''"
      by (rule title)
    show "length (generateConversationTitle
        [plainMessage User (js ''zzzzzzzzzzzzzzzzzzzzzzzzzzzzzz'')]) = 41"
      by (rule len)
    show "25 < length (generateConversationTitle
        [plainMessage User (js ''zzzzzzzzzzzzzzzzzzzzzzzzzzzzzz'')])"
      unfolding len by simp
  qed
qed


section \<open>Properties of the title heuristic on the state of the browser\<close>

subsection \<open>Matches\<close>

lemma first_match_None_iff:
  "first_match lit s ps = None \<longleftrightarrow> (\<forall>i \<in> set ps. match_at lit s i = None)"
  by (induction ps) (auto split: option.splits)

lemma first_match_TopicLetters:
  "first_match TopicLetters s [0 ..< Suc (length s)] \<noteq> None \<longleftrightarrow> s \<noteq> [] \<and> list_all isTopicLetter s"
proof -
  have "[0 ..< Suc (length s)] = 0 # [Suc 0 ..< Suc (length s)]"
    by (simp add: upt_conv_Cons del: upt_Suc)
  moreover have "first_match TopicLetters s [Suc 0 ..< Suc (length s)] = None"
    by (simp add: first_match_None_iff del: upt_Suc)
  ultimately show ?thesis by (simp del: upt_Suc)
qed

subsection \<open>Replacing\<close>

lemma replace_scan_NonWordNonSpace:
  "e \<le> a \<Longrightarrow>
   replace_scan NonWordNonSpace [32] s e [a ..< Suc (length s)] = replaceNonWord (drop a s)"
proof (induction "Suc (length s) - a" arbitrary: a e)
  case 0
  then show ?case by (simp add: replaceNonWord_def)
next
  case (Suc k)
  then have a: "a \<le> length s" by simp
  then have upt: "[a ..< Suc (length s)] = a # [Suc a ..< Suc (length s)]"
    by (simp add: upt_conv_Cons del: upt_Suc)
  from Suc.hyps(2) have k: "k = Suc (length s) - Suc a" by simp
  show ?case
  proof (cases "a < length s")
    case False
    with a have "a = length s" by simp
    then show ?thesis using Suc.prems by (simp add: replaceNonWord_def upt_conv_Cons del: upt_Suc)
  next
    case True
    then have drop: "drop a s = s ! a # drop (Suc a) s"
      by (simp add: Cons_nth_drop_Suc)
    have rest: "\<And>e'. e' \<le> Suc a \<Longrightarrow>
        replace_scan NonWordNonSpace [32] s e' [Suc a ..< Suc (length s)]
          = replaceNonWord (drop (Suc a) s)"
      using Suc.hyps(1) [OF k] by blast
    from Suc.prems True show ?thesis
      unfolding upt drop by (simp add: rest replaceNonWord_def del: upt_Suc)
  qed
qed

lemma removeDigits_Cons:
  "removeDigits (c # cs) = (if isDigit c then removeDigits cs else c # removeDigits cs)"
  by (simp add: removeDigits_def)

lemma replace_scan_Digits:
  "\<forall>j. a \<le> j \<and> j < e \<longrightarrow> j < length s \<and> isDigit (s ! j) \<Longrightarrow>
   replace_scan Digits [] s e [a ..< Suc (length s)] = removeDigits (drop a s)"
proof (induction "Suc (length s) - a" arbitrary: a e)
  case 0
  then show ?case by (simp add: removeDigits_def)
next
  case (Suc k)
  then have a: "a \<le> length s" by simp
  then have upt: "[a ..< Suc (length s)] = a # [Suc a ..< Suc (length s)]"
    by (simp add: upt_conv_Cons del: upt_Suc)
  from Suc.hyps(2) have k: "k = Suc (length s) - Suc a" by simp
  note IH = Suc.hyps(1) [OF k]
  let ?rest = "[Suc a ..< Suc (length s)]"
  show ?case
  proof (cases "a < e")
    case True
    with Suc.prems have la: "a < length s" and da: "isDigit (s ! a)" by auto
    from la have drop: "drop a s = s ! a # drop (Suc a) s"
      by (simp add: Cons_nth_drop_Suc)
    have "replace_scan Digits [] s e ?rest = removeDigits (drop (Suc a) s)"
      using Suc.prems by (intro IH) auto
    moreover have "replace_scan Digits [] s e (a # ?rest) = replace_scan Digits [] s e ?rest"
      using True by (simp del: upt_Suc match_at.simps)
    moreover have "removeDigits (drop a s) = removeDigits (drop (Suc a) s)"
      unfolding drop using da by (simp add: removeDigits_Cons)
    ultimately show ?thesis unfolding upt by simp
  next
    case False
    let ?n = "length (takeWhile isDigit (drop a s))"
    show ?thesis
    proof (cases "0 < ?n")
      case True
      then have m: "match_at Digits s a = Some (a + ?n)"
        by (simp add: Let_def)
      from True have "takeWhile isDigit (drop a s) \<noteq> []" by simp
      then have ne: "drop a s \<noteq> []" and hd: "isDigit (hd (drop a s))"
        by (auto simp: takeWhile_eq_Nil_iff)
      from ne have la: "a < length s" by simp
      with hd have da: "isDigit (s ! a)"
        by (simp add: hd_drop_conv_nth)
      from la have drop: "drop a s = s ! a # drop (Suc a) s"
        by (simp add: Cons_nth_drop_Suc)
      have inside: "\<forall>j. Suc a \<le> j \<and> j < a + ?n \<longrightarrow> j < length s \<and> isDigit (s ! j)"
      proof (intro allI impI)
        fix j assume j: "Suc a \<le> j \<and> j < a + ?n"
        then have jn: "j - a < ?n" by arith
        have "?n \<le> length (drop a s)" by (rule length_takeWhile_le)
        with jn j have lj: "j < length s" by simp
        from jn have "takeWhile isDigit (drop a s) ! (j - a) \<in> set (takeWhile isDigit (drop a s))"
          by (rule nth_mem)
        then have "isDigit (takeWhile isDigit (drop a s) ! (j - a))"
          by (rule set_takeWhileD [THEN conjunct2])
        with jn have "isDigit (drop a s ! (j - a))"
          by (simp add: takeWhile_nth)
        moreover from j lj have "drop a s ! (j - a) = s ! j" by simp
        ultimately show "j < length s \<and> isDigit (s ! j)" using lj by simp
      qed
      have "replace_scan Digits [] s (a + ?n) ?rest = removeDigits (drop (Suc a) s)"
        using inside by (rule IH)
      moreover have "replace_scan Digits [] s e (a # ?rest)
          = replace_scan Digits [] s (a + ?n) ?rest"
        using False True by (simp add: m del: upt_Suc match_at.simps)
      moreover have "removeDigits (drop a s) = removeDigits (drop (Suc a) s)"
        unfolding drop using da by (simp add: removeDigits_Cons)
      ultimately show ?thesis unfolding upt by simp
    next
      case n0: False
      then have m: "match_at Digits s a = None"
        by (simp add: Let_def)
      have rest: "replace_scan Digits [] s e ?rest = removeDigits (drop (Suc a) s)"
        using False by (intro IH) auto
      have step: "replace_scan Digits [] s e (a # ?rest)
          = (if a < length s then [s ! a] else []) @ replace_scan Digits [] s e ?rest"
        using False by (simp add: m del: upt_Suc match_at.simps)
      show ?thesis
      proof (cases "a < length s")
        case True
        then have drop: "drop a s = s ! a # drop (Suc a) s"
          by (simp add: Cons_nth_drop_Suc)
        have "\<not> isDigit (s ! a)"
        proof
          assume "isDigit (s ! a)"
          then have "takeWhile isDigit (drop a s) \<noteq> []"
            unfolding drop by simp
          with n0 show False by simp
        qed
        then have "removeDigits (drop a s) = s ! a # removeDigits (drop (Suc a) s)"
          unfolding drop by (simp add: removeDigits_Cons)
        with True rest step show ?thesis unfolding upt by simp
      next
        case False
        then have "drop a s = []" "drop (Suc a) s = []" by simp_all
        with False rest step show ?thesis unfolding upt by (simp add: removeDigits_def)
      qed
    qed
  qed
qed

subsection \<open>Splitting\<close>

lemma split_ws_Cons_space:
  "isSpace c \<Longrightarrow>
   split_ws (c # cs) =
     (case cs of [] \<Rightarrow> [[], []] | d # ds \<Rightarrow> if isSpace d then split_ws cs else [] # split_ws cs)"
  by (simp del: split_ws.simps add: split_ws.simps(2) [of c cs])

lemma split_ws_Cons_letter:
  "\<not> isSpace c \<Longrightarrow>
   split_ws (c # cs) = (case split_ws cs of [] \<Rightarrow> [[c]] | w # ws \<Rightarrow> (c # w) # ws)"
  by (simp del: split_ws.simps add: split_ws.simps(2) [of c cs])

lemma split_ws_nonempty: "split_ws s \<noteq> []"
proof (induction s)
  case Nil
  show ?case by simp
next
  case (Cons c cs)
  show ?case
  proof (cases "isSpace c")
    case True
    then have "split_ws (c # cs) =
        (case cs of [] \<Rightarrow> [[], []] | d # ds \<Rightarrow> if isSpace d then split_ws cs else [] # split_ws cs)"
      by (rule split_ws_Cons_space)
    with Cons.IH show ?thesis
      by (cases cs) (simp_all del: split_ws.simps)
  next
    case False
    then show ?thesis
      by (cases "split_ws cs") (simp_all add: split_ws_Cons_letter del: split_ws.simps)
  qed
qed

lemma split_ws_space: "isSpace c \<Longrightarrow> split_ws (c # cs) = [] # split_ws (dropWhile isSpace cs)"
proof (induction cs arbitrary: c)
  case Nil
  then have "split_ws [c] = [[], []]"
    by (simp add: split_ws_Cons_space del: split_ws.simps)
  then show ?case by simp
next
  case (Cons d ds)
  from Cons.prems have step: "split_ws (c # d # ds)
      = (if isSpace d then split_ws (d # ds) else [] # split_ws (d # ds))"
    using split_ws_Cons_space [of c "d # ds"] by (simp del: split_ws.simps)
  show ?case
  proof (cases "isSpace d")
    case True
    then have "split_ws (d # ds) = [] # split_ws (dropWhile isSpace ds)"
      by (rule Cons.IH)
    with True step show ?thesis by (simp del: split_ws.simps)
  next
    case False
    with step show ?thesis by (simp del: split_ws.simps)
  qed
qed

lemma split_ws_letter:
  "\<not> isSpace c \<Longrightarrow> split_ws (c # cs) = (c # hd (split_ws cs)) # tl (split_ws cs)"
  using split_ws_nonempty [of cs]
  by (cases "split_ws cs") (simp_all add: split_ws_Cons_letter del: split_ws.simps)

lemma split_scan_skip:
  "a \<le> e \<Longrightarrow> split_scan lit s e cur [a ..< n] = split_scan lit s e cur [e ..< n]"
proof (induction "e - a" arbitrary: a)
  case 0
  then show ?case by simp
next
  case (Suc k)
  then have less: "a < e" and k: "k = e - Suc a" by simp_all
  show ?case
  proof (cases "a < n")
    case True
    then have "[a ..< n] = a # [Suc a ..< n]" by (simp add: upt_conv_Cons)
    then have "split_scan lit s e cur [a ..< n] = split_scan lit s e cur [Suc a ..< n]"
      using less by simp
    also have "\<dots> = split_scan lit s e cur [e ..< n]"
      using less by (intro Suc.hyps(1) [OF k]) simp
    finally show ?thesis .
  next
    case False
    with less show ?thesis by simp
  qed
qed

lemma split_scan_WhiteSpaces:
  "e \<le> a \<Longrightarrow>
   split_scan WhiteSpaces s e cur [a ..< length s]
     = (rev cur @ hd (split_ws (drop a s))) # tl (split_ws (drop a s))"
proof (induction "length s - a" arbitrary: a e cur rule: less_induct)
  case less
  show ?case
  proof (cases "a < length s")
    case False
    then show ?thesis by simp
  next
    case True
    then have upt: "[a ..< length s] = a # [Suc a ..< length s]"
      by (simp add: upt_conv_Cons)
    from True have drop: "drop a s = s ! a # drop (Suc a) s"
      by (simp add: Cons_nth_drop_Suc)
    let ?n = "length (takeWhile isSpace (drop a s))"
    let ?rest = "[Suc a ..< length s]"
    show ?thesis
    proof (cases "isSpace (s ! a)")
      case True
      then have "takeWhile isSpace (drop a s) = s ! a # takeWhile isSpace (drop (Suc a) s)"
        by (simp add: drop)
      then have n: "0 < ?n" by simp
      then have m: "match_at WhiteSpaces s a = Some (a + ?n)"
        by (simp add: Let_def)
      have "?n \<le> length (drop a s)" by (rule length_takeWhile_le)
      then have le: "a + ?n \<le> length s" using \<open>a < length s\<close> by simp
      have "split_scan WhiteSpaces s e cur (a # ?rest)
          = rev cur # split_scan WhiteSpaces s (a + ?n) [] ?rest"
        using less.prems le by (simp add: m min_absorb1 del: match_at.simps)
      also have "split_scan WhiteSpaces s (a + ?n) [] ?rest
          = split_scan WhiteSpaces s (a + ?n) [] [a + ?n ..< length s]"
        using n by (intro split_scan_skip) arith
      also have "\<dots> = (rev [] @ hd (split_ws (drop (a + ?n) s))) # tl (split_ws (drop (a + ?n) s))"
        using n \<open>a < length s\<close> by (intro less.hyps) arith+
      also have "\<dots> = split_ws (drop (a + ?n) s)"
        using split_ws_nonempty by simp
      finally have scan: "split_scan WhiteSpaces s e cur (a # ?rest)
          = rev cur # split_ws (drop (a + ?n) s)" .
      have "dropWhile isSpace (drop a s) = drop ?n (drop a s)"
        by (rule dropWhile_eq_drop)
      moreover have "dropWhile isSpace (drop a s) = dropWhile isSpace (drop (Suc a) s)"
        unfolding drop using True by simp
      ultimately have "dropWhile isSpace (drop (Suc a) s) = drop (a + ?n) s"
        by (simp add: add.commute)
      then have "split_ws (drop a s) = [] # split_ws (drop (a + ?n) s)"
        unfolding drop using True by (simp only: split_ws_space)
      with scan show ?thesis unfolding upt by simp
    next
      case False
      then have "takeWhile isSpace (drop a s) = []"
        by (simp add: drop)
      then have "?n = 0" by simp
      then have m: "match_at WhiteSpaces s a = None"
        by (simp add: Let_def)
      have "split_scan WhiteSpaces s e cur (a # ?rest)
          = split_scan WhiteSpaces s e (s ! a # cur) ?rest"
        using less.prems by (simp add: m del: match_at.simps)
      also have "\<dots> = (rev (s ! a # cur) @ hd (split_ws (drop (Suc a) s)))
          # tl (split_ws (drop (Suc a) s))"
        using less.prems \<open>a < length s\<close> by (intro less.hyps) simp_all
      finally have scan: "split_scan WhiteSpaces s e cur (a # ?rest)
          = (rev cur @ s ! a # hd (split_ws (drop (Suc a) s))) # tl (split_ws (drop (Suc a) s))"
        by simp
      have "split_ws (drop a s)
          = (s ! a # hd (split_ws (drop (Suc a) s))) # tl (split_ws (drop (Suc a) s))"
        unfolding drop using False by (rule split_ws_letter)
      with scan show ?thesis unfolding upt by simp
    qed
  qed
qed

lemma split_scan_split_ws: "split_scan WhiteSpaces s 0 [] [0 ..< length s] = split_ws s"
  using split_scan_WhiteSpaces [of 0 0 s "[]"] split_ws_nonempty [of s] by simp

subsection \<open>The methods on an object that the call has created\<close>

lemma String_replace_new:
  "String_replace (fst (new_RegExp lit True rt)) repl s (snd (new_RegExp lit True rt))
     = (replace_scan lit repl s 0 [0 ..< Suc (length s)],
        rt\<lparr>regexps := regexps rt @ [\<lparr>re_source = lit, re_global = True, re_lastIndex = 0\<rparr>]\<rparr>)"
  by (simp add: new_RegExp_def String_replace_def set_lastIndex_def del: upt_Suc)

lemma String_split_new:
  "String_split (fst (new_RegExp lit g rt)) s (snd (new_RegExp lit g rt))
     = (split_scan lit s 0 [] [0 ..< length s],
        rt\<lparr>regexps := regexps rt @ [\<lparr>re_source = lit, re_global = g, re_lastIndex = 0\<rparr>]\<rparr>)"
  by (simp add: new_RegExp_def String_split_def)

lemma RegExp_test_new:
  "RegExp_test (fst (new_RegExp TopicLetters False rt)) s (snd (new_RegExp TopicLetters False rt))
     = (s \<noteq> [] \<and> list_all isTopicLetter s,
        rt\<lparr>regexps := regexps rt @
           [\<lparr>re_source = TopicLetters, re_global = False, re_lastIndex = 0\<rparr>]\<rparr>)"
proof -
  have "first_match TopicLetters s [0 ..< Suc (length s)] \<noteq> None
      \<longleftrightarrow> s \<noteq> [] \<and> list_all isTopicLetter s"
    by (rule first_match_TopicLetters)
  then show ?thesis
    by (cases "first_match TopicLetters s [0 ..< Suc (length s)]")
       (auto simp: new_RegExp_def RegExp_test_def RegExp_exec_def simp del: upt_Suc)
qed

lemma keepWord_run_keepWord:
  "\<exists>new. keepWord_run w rt = (keepWord w, rt\<lparr>regexps := regexps rt @ new\<rparr>)"
proof (cases "length w > 2 \<and> w \<notin> set commonWords")
  case True
  then have "keepWord_run w rt
      = (keepWord w, rt\<lparr>regexps := regexps rt @
           [\<lparr>re_source = TopicLetters, re_global = False, re_lastIndex = 0\<rparr>]\<rparr>)"
    by (simp add: keepWord_run_def keepWord_def case_prod_beta RegExp_test_new)
  then show ?thesis by blast
next
  case False
  then have "keepWord_run w rt = (keepWord w, rt\<lparr>regexps := regexps rt @ []\<rparr>)"
    by (auto simp: keepWord_run_def keepWord_def)
  then show ?thesis by blast
qed

lemma filter_run_keepWord:
  "\<exists>new. filter_run keepWord_run ws rt = (filter keepWord ws, rt\<lparr>regexps := regexps rt @ new\<rparr>)"
proof (induction ws arbitrary: rt)
  case Nil
  have "filter_run keepWord_run [] rt = (filter keepWord [], rt\<lparr>regexps := regexps rt @ []\<rparr>)"
    by simp
  then show ?case by blast
next
  case (Cons w ws)
  obtain n1 where w: "keepWord_run w rt = (keepWord w, rt\<lparr>regexps := regexps rt @ n1\<rparr>)"
    using keepWord_run_keepWord by blast
  obtain n2 where ws: "filter_run keepWord_run ws (rt\<lparr>regexps := regexps rt @ n1\<rparr>)
      = (filter keepWord ws, rt\<lparr>regexps := regexps rt @ n1 @ n2\<rparr>)"
    using Cons.IH [of "rt\<lparr>regexps := regexps rt @ n1\<rparr>"] by auto
  have "filter_run keepWord_run (w # ws) rt
      = (filter keepWord (w # ws), rt\<lparr>regexps := regexps rt @ (n1 @ n2)\<rparr>)"
    by (simp add: w ws)
  then show ?case by blast
qed

subsection \<open>The run and the function\<close>

lemma extractTopics_run_extractTopics:
  "\<exists>new. extractTopics_run userText rt
     = (extractTopics userText, rt\<lparr>regexps := regexps rt @ new\<rparr>)"
proof -
  let ?r1 = "\<lparr>re_source = NonWordNonSpace, re_global = True, re_lastIndex = 0\<rparr>"
  let ?r2 = "\<lparr>re_source = Digits, re_global = True, re_lastIndex = 0\<rparr>"
  let ?r3 = "\<lparr>re_source = WhiteSpaces, re_global = False, re_lastIndex = 0\<rparr>"
  let ?ws = "map (\<lambda>word. trim (toLowerCase word)) (split_ws (removeDigits (replaceNonWord userText)))"
  let ?rt6 = "rt\<lparr>regexps := regexps rt @ [?r1, ?r2, ?r3]\<rparr>"
  have s1: "replace_scan NonWordNonSpace [32] userText 0 [0 ..< Suc (length userText)]
      = replaceNonWord userText"
    using replace_scan_NonWordNonSpace [of 0 0 userText] by simp
  have s2: "\<And>s. replace_scan Digits [] s 0 [0 ..< Suc (length s)] = removeDigits s"
    using replace_scan_Digits [of 0 0] by simp
  obtain new where f: "filter_run keepWord_run ?ws ?rt6
      = (filter keepWord ?ws, ?rt6\<lparr>regexps := regexps ?rt6 @ new\<rparr>)"
    using filter_run_keepWord by blast
  have "extractTopics_run userText rt
      = (extractTopics userText, rt\<lparr>regexps := regexps rt @ ([?r1, ?r2, ?r3] @ new)\<rparr>)"
    unfolding extractTopics_run_def
    by (simp add: case_prod_beta String_replace_new String_split_new s1 s2 split_scan_split_ws f
        extractTopics_def topicWords_def del: upt_Suc)
  then show ?thesis by blast
qed

lemma generateConversationTitle_run_function:
  "\<exists>new. generateConversationTitle_run ms rt
     = (generateConversationTitle ms, rt\<lparr>regexps := regexps rt @ new\<rparr>)"
proof (cases "filter (\<lambda>msg. role msg = User) ms = []")
  case True
  then have "generateConversationTitle_run ms rt
      = (generateConversationTitle ms, rt\<lparr>regexps := regexps rt @ []\<rparr>)"
    by (simp add: generateConversationTitle_run_def generateConversationTitle_def)
  then show ?thesis by blast
next
  case False
  let ?t = "toLowerCase (join_sp (map content (filter (\<lambda>msg. role msg = User) ms)))"
  obtain new where "extractTopics_run ?t rt
      = (extractTopics ?t, rt\<lparr>regexps := regexps rt @ new\<rparr>)"
    using extractTopics_run_extractTopics by blast
  with False have "generateConversationTitle_run ms rt
      = (generateConversationTitle ms, rt\<lparr>regexps := regexps rt @ new\<rparr>)"
    by (simp add: generateConversationTitle_run_def generateConversationTitle_def Let_def)
  then show ?thesis by blast
qed

text \<open>
  The state matters to the methods: on an object with the flag \<^verbatim>\<open>g\<close>, the same test of
  the same string succeeds the first time and fails the second time, because the first
  test has moved \<^verbatim>\<open>lastIndex\<close> to the end of the string.
\<close>

lemma RegExp_test_global_twice:
  assumes "regexps rt = [\<lparr>re_source = TopicLetters, re_global = True, re_lastIndex = 0\<rparr>]"
  shows "fst (RegExp_test 0 (js ''abc'') rt) \<and>
         \<not> fst (RegExp_test 0 (js ''abc'') (snd (RegExp_test 0 (js ''abc'') rt)))"
  using assms
  by (simp add: RegExp_test_def RegExp_exec_def set_lastIndex_def js_def isTopicLetter_def
      isAsciiLetter_def)

text \<open>
  C8: the title that a run of \<open>generateConversationTitle\<close> returns is the same from any
  two states of the browser: it does not depend on the \<^verbatim>\<open>RegExp\<close> objects that exist and
  on their \<^verbatim>\<open>lastIndex\<close>, on the store, on the local storage or on the time, and it is the
  value of the function of the message list alone that the sections above study. A run
  leaves the state as it found it, but for the objects that it has created itself, which
  nothing refers to afterwards. So a second run on the same list, after the first or from
  any other state, returns the same title.
\<close>

theorem generateConversationTitle_run_deterministic:
  "fst (generateConversationTitle_run ms rt) = fst (generateConversationTitle_run ms rt') \<and>
   fst (generateConversationTitle_run ms (snd (generateConversationTitle_run ms rt)))
     = fst (generateConversationTitle_run ms rt) \<and>
   fst (generateConversationTitle_run ms rt) = generateConversationTitle ms \<and>
   (\<exists>new. snd (generateConversationTitle_run ms rt) = rt\<lparr>regexps := regexps rt @ new\<rparr>)"
proof -
  have title: "\<And>st. fst (generateConversationTitle_run ms st) = generateConversationTitle ms"
  proof -
    fix st
    obtain new where "generateConversationTitle_run ms st
        = (generateConversationTitle ms, st\<lparr>regexps := regexps st @ new\<rparr>)"
      using generateConversationTitle_run_function by blast
    then show "fst (generateConversationTitle_run ms st) = generateConversationTitle ms"
      by simp
  qed
  have state: "\<exists>new. snd (generateConversationTitle_run ms rt) = rt\<lparr>regexps := regexps rt @ new\<rparr>"
  proof -
    obtain new where "generateConversationTitle_run ms rt
        = (generateConversationTitle ms, rt\<lparr>regexps := regexps rt @ new\<rparr>)"
      using generateConversationTitle_run_function by blast
    then have "snd (generateConversationTitle_run ms rt) = rt\<lparr>regexps := regexps rt @ new\<rparr>"
      by simp
    then show ?thesis by blast
  qed
  show ?thesis
    by (intro conjI state) (simp_all only: title)
qed

theorem generateConversationTitle_run_deterministic_witness:
  "fst (generateConversationTitle_run [plainMessage User (js ''Et vous ?'')]
          \<lparr>regexps = [], app_store = defaultState (js ''key'') (js ''url''),
           app_storage = Map.empty, clock = 0\<rparr>)
     = fst (generateConversationTitle_run [plainMessage User (js ''Et vous ?'')]
          \<lparr>regexps = [\<lparr>re_source = TopicLetters, re_global = True, re_lastIndex = 2\<rparr>],
           app_store = (defaultState (js ''key'') (js ''url''))
             \<lparr>messages := [plainMessage User (js ''bonjour'')], isLoading := True\<rparr>,
           app_storage = [js ''deepseek-rag-sidebar'' \<mapsto> js ''false''], clock = 1000\<rparr>) \<and>
   regexps (snd (generateConversationTitle_run [plainMessage User (js ''Et vous ?'')]
          \<lparr>regexps = [\<lparr>re_source = TopicLetters, re_global = True, re_lastIndex = 2\<rparr>],
           app_store = (defaultState (js ''key'') (js ''url''))
             \<lparr>messages := [plainMessage User (js ''bonjour'')], isLoading := True\<rparr>,
           app_storage = [js ''deepseek-rag-sidebar'' \<mapsto> js ''false''], clock = 1000\<rparr>))
     = [\<lparr>re_source = TopicLetters, re_global = True, re_lastIndex = 2\<rparr>,
        \<lparr>re_source = NonWordNonSpace, re_global = True, re_lastIndex = 0\<rparr>,
        \<lparr>re_source = Digits, re_global = True, re_lastIndex = 0\<rparr>,
        \<lparr>re_source = WhiteSpaces, re_global = False, re_lastIndex = 0\<rparr>]"
proof -
  let ?ms = "[plainMessage User (js ''Et vous ?'')]"
  let ?a = "\<lparr>regexps = [], app_store = defaultState (js ''key'') (js ''url''),
           app_storage = Map.empty, clock = 0\<rparr>"
  let ?b = "\<lparr>regexps = [\<lparr>re_source = TopicLetters, re_global = True, re_lastIndex = 2\<rparr>],
           app_store = (defaultState (js ''key'') (js ''url''))
             \<lparr>messages := [plainMessage User (js ''bonjour'')], isLoading := True\<rparr>,
           app_storage = [js ''deepseek-rag-sidebar'' \<mapsto> js ''false''], clock = 1000\<rparr>"
  have same: "fst (generateConversationTitle_run ?ms ?a) = fst (generateConversationTitle_run ?ms ?b)"
    by (rule generateConversationTitle_run_deterministic [of ?ms ?a ?b, THEN conjunct1])
  have heap: "regexps (snd (generateConversationTitle_run ?ms ?b))
     = [\<lparr>re_source = TopicLetters, re_global = True, re_lastIndex = 2\<rparr>,
        \<lparr>re_source = NonWordNonSpace, re_global = True, re_lastIndex = 0\<rparr>,
        \<lparr>re_source = Digits, re_global = True, re_lastIndex = 0\<rparr>,
        \<lparr>re_source = WhiteSpaces, re_global = False, re_lastIndex = 0\<rparr>]"
    by (simp add: generateConversationTitle_run_def extractTopics_run_def keepWord_run_def
        new_RegExp_def String_replace_def String_split_def set_lastIndex_def plainMessage_def
        toLowerCase_def lowerUnit_def trim_def commonWords_def js_def isSpace_def isWordChar_def
        isAsciiLetter_def isDigit_def Let_def)
  from same heap show ?thesis by (rule conjI)
qed

end
